theory Spec2Isabelle
  imports Complex_Main "HOL-Library.AList"
begin

section \<open>The batch audio-enhancement pipeline of \<^verbatim>\<open>xtts/clean_audio.py\<close>\<close>

text \<open>
  The script walks an input directory, runs every matching file through the two
  operations of the Resemble Enhance library, writes one result per file into an output
  directory and counts the files that went through. Everything it does beyond that is a
  call into a library (pathlib, torchaudio, resemble_enhance, soundfile). The libraries are
  no part of the repository, so their results are parameters of the model (the record
  \<open>env\<close>); what the script itself does with them is translated statement by statement.

  Conventions of the model:
  \<^item> a path is the list of its components, from the root;
  \<^item> the file system is an association list from paths to entries, in the order in
    which a directory scan meets them;
  \<^item> an exception is a value; only exceptions derived from Python's \<open>Exception\<close>
    are modelled (these are what the library calls raise on a failure; an interrupt of
    the process is no failure of a file);
  \<^item> audio samples, the blend weight and the time parameter are real numbers: the
    rounding of floating-point arithmetic is not modelled;
  \<^item> every call into a library and every printed line is recorded in a trace, in the
    order in which it happens.
\<close>

subsection \<open>Paths and the file system\<close>

type_synonym path = "string list"

type_synonym bytes = string

datatype entry = File bytes | Dir

type_synonym fsys = "(path \<times> entry) list"

text \<open>\<^verbatim>\<open>Path.name\<close>: the last component, the empty string for the root.\<close>

definition name :: "path \<Rightarrow> string" where
  "name p = (if p = [] then [] else last p)"

text \<open>\<^verbatim>\<open>output_path / audio_file.name\<close>\<close>

definition joinpath :: "path \<Rightarrow> string \<Rightarrow> path" where
  "joinpath d n = d @ [n]"

text \<open>What is stored at a path; the root is a directory that always exists.\<close>

definition lookup :: "fsys \<Rightarrow> path \<Rightarrow> entry option" where
  "lookup fsy p = (if p = [] then Some Dir else map_of fsy p)"

definition is_dir :: "fsys \<Rightarrow> path \<Rightarrow> bool" where
  "is_dir fsy p = (lookup fsy p = Some Dir)"

definition is_file :: "fsys \<Rightarrow> path \<Rightarrow> bool" where
  "is_file fsy p = (case lookup fsy p of Some (File b) \<Rightarrow> True | _ \<Rightarrow> False)"

text \<open>\<^verbatim>\<open>Path.exists()\<close>\<close>

definition exists :: "fsys \<Rightarrow> path \<Rightarrow> bool" where
  "exists fsy p = (lookup fsy p \<noteq> None)"

text \<open>A path lies under a directory when the directory is a proper prefix of it.\<close>

definition is_under :: "path \<Rightarrow> path \<Rightarrow> bool" where
  "is_under base p = (length base < length p \<and> take (length base) p = base)"

text \<open>
  The matching of one path component against a shell pattern, as \<^verbatim>\<open>fnmatch\<close> does it
  for pathlib on POSIX (the case is kept): \<^verbatim>\<open>*\<close> stands for any run of characters,
  \<^verbatim>\<open>?\<close> for one character, \<^verbatim>\<open>[...]\<close> for one character of a set and
  \<^verbatim>\<open>[!...]\<close> for one character outside it; every other character stands for itself.

  A set ends at the first \<^verbatim>\<open>]\<close> that is not its first member; a \<^verbatim>\<open>[\<close> with no such
  end stands for itself. In a set, \<^verbatim>\<open>x-y\<close> is the range from \<open>x\<close> to \<open>y\<close> (empty when
  \<open>y\<close> is before \<open>x\<close>); a hyphen that is first or last is a member.
\<close>

fun find_close :: "string \<Rightarrow> (string \<times> string) option" where
  "find_close [] = None"
| "find_close (c # cs) =
     (if c = CHR '']'' then Some ([], cs)
      else (case find_close cs of None \<Rightarrow> None | Some (stuff, rest) \<Rightarrow> Some (c # stuff, rest)))"

definition bracket :: "string \<Rightarrow> (bool \<times> string \<times> string) option" where
  "bracket s =
     (let negated = (s \<noteq> [] \<and> hd s = CHR ''!'');
          s1 = (if negated then tl s else s);
          lead = (if s1 \<noteq> [] \<and> hd s1 = CHR '']'' then '']'' else []);
          s2 = (if lead = [] then s1 else tl s1)
      in case find_close s2 of
           None \<Rightarrow> None
         | Some (stuff, rest) \<Rightarrow> Some (negated, lead @ stuff, rest))"

fun in_bracket :: "char \<Rightarrow> string \<Rightarrow> bool" where
  "in_bracket ch [] = False"
| "in_bracket ch [x] = (ch = x)"
| "in_bracket ch (x # y # rest) =
     (if y = CHR ''-''
      then (case rest of
              [] \<Rightarrow> ch = x \<or> ch = y
            | z # rest' \<Rightarrow> ((of_char x :: nat) \<le> of_char ch \<and> (of_char ch :: nat) \<le> of_char z)
                           \<or> in_bracket ch rest')
      else ch = x \<or> in_bracket ch (y # rest))"

function glob_match :: "string \<Rightarrow> string \<Rightarrow> bool" where
  "glob_match [] n = (n = [])"
| "glob_match (c # p) n =
     (if c = CHR ''*'' then glob_match p n \<or> (case n of [] \<Rightarrow> False | d # n' \<Rightarrow> glob_match (c # p) n')
      else if c = CHR ''?'' then (case n of [] \<Rightarrow> False | d # n' \<Rightarrow> glob_match p n')
      else if c = CHR ''['' then
        (case bracket p of
           None \<Rightarrow> (case n of [] \<Rightarrow> False | d # n' \<Rightarrow> d = c \<and> glob_match p n')
         | Some (negated, stuff, rest) \<Rightarrow>
             (case n of [] \<Rightarrow> False | d # n' \<Rightarrow> (in_bracket d stuff \<noteq> negated) \<and> glob_match rest n'))
      else (case n of [] \<Rightarrow> False | d # n' \<Rightarrow> d = c \<and> glob_match p n'))"
  by pat_completeness auto
termination
proof -
  have close: "\<And>s stuff rest. find_close s = Some (stuff, rest) \<Longrightarrow> length rest < length s"
  proof -
    fix s :: string and stuff rest
    show "find_close s = Some (stuff, rest) \<Longrightarrow> length rest < length s"
      by (induction s arbitrary: stuff rest) (auto split: if_splits option.splits)
  qed
  have shorter: "\<And>s negated stuff rest.
      bracket s = Some (negated, stuff, rest) \<Longrightarrow> length rest < Suc (length s)"
    by (auto simp: bracket_def Let_def split: option.splits if_splits dest!: close)
  show ?thesis
    by (relation "measure (\<lambda>(p, n). length p + length n)") (auto dest: shorter)
qed

text \<open>\<^verbatim>\<open>fnmatch(name, pat)\<close>\<close>

definition fnmatch :: "string \<Rightarrow> string \<Rightarrow> bool" where
  "fnmatch n pat = glob_match pat n"

text \<open>
  \<^verbatim>\<open>Path.rglob(f'*.{audio_format}')\<close>: every path under the directory whose last
  component matches the pattern \<^verbatim>\<open>*.\<close> followed by the format. pathlib yields
  matching entries of any kind, directories included, and nothing when the root is no
  directory. The format is spliced into the pattern as it is, so a wildcard in it is a
  wildcard of the pattern. The pattern is one component: a format that holds a separator
  or \<^verbatim>\<open>**\<close> (which pathlib refuses inside a component) is not covered.
\<close>

definition rglob :: "fsys \<Rightarrow> path \<Rightarrow> string \<Rightarrow> path list" where
  "rglob fsy base audio_format =
     (if is_dir fsy base
      then filter (\<lambda>p. is_under base p \<and> fnmatch (name p) (''*.'' @ audio_format)) (map fst fsy)
      else [])"

subsection \<open>Exceptions, strings and numbers of Python\<close>

datatype exn = Exception string

text \<open>\<^verbatim>\<open>str(e)\<close>\<close>

fun str :: "exn \<Rightarrow> string" where
  "str (Exception msg) = msg"

text \<open>\<^verbatim>\<open>str.lower()\<close> and \<^verbatim>\<open>str.upper()\<close> on ASCII text.\<close>

definition lower_char :: "char \<Rightarrow> char" where
  "lower_char c =
     (case map_of (zip ''ABCDEFGHIJKLMNOPQRSTUVWXYZ'' ''abcdefghijklmnopqrstuvwxyz'') c of
        Some l \<Rightarrow> l
      | None \<Rightarrow> c)"

definition upper_char :: "char \<Rightarrow> char" where
  "upper_char c =
     (case map_of (zip ''abcdefghijklmnopqrstuvwxyz'' ''ABCDEFGHIJKLMNOPQRSTUVWXYZ'') c of
        Some u \<Rightarrow> u
      | None \<Rightarrow> c)"

definition lower :: "string \<Rightarrow> string" where
  "lower s = map lower_char s"

definition upper :: "string \<Rightarrow> string" where
  "upper s = map upper_char s"

text \<open>The decimal text of a count, as an f-string prints it.\<close>

definition digit_char :: "nat \<Rightarrow> char" where
  "digit_char d = ''0123456789'' ! d"

fun str_nat :: "nat \<Rightarrow> string" where
  "str_nat n = (if n < 10 then [digit_char n] else str_nat (n div 10) @ [digit_char (n mod 10)])"

declare str_nat.simps [simp del]

text \<open>
  The iteration budget as a caller may pass it: an integer or a (finite) float.
  \<^verbatim>\<open>int(nfe)\<close> keeps an integer and truncates a float towards zero.
\<close>

datatype number = IntNum int | FloatNum real

fun py_int :: "number \<Rightarrow> int" where
  "py_int (IntNum i) = i"
| "py_int (FloatNum r) = (if 0 \<le> r then \<lfloor>r\<rfloor> else \<lceil>r\<rceil>)"

subsection \<open>Waveforms\<close>

text \<open>
  \<^verbatim>\<open>torchaudio.load\<close> returns a tensor of shape [channels, frames], here the list of
  its channels, each a list of as many samples as there are frames, and at least one
  channel. \<^verbatim>\<open>dwav.mean(dim=0)\<close> averages over the channels, frame by frame.
\<close>

type_synonym wave = "real list"

definition mean_dim0 :: "wave list \<Rightarrow> wave" where
  "mean_dim0 chans =
     (case chans of
        [] \<Rightarrow> []
      | c # _ \<Rightarrow> map (\<lambda>t. (\<Sum>ch\<leftarrow>chans. ch ! t) / real (length chans)) [0..<length c])"

subsection \<open>The libraries and the world\<close>

text \<open>What \<^verbatim>\<open>sf.write\<close> does once the target can be opened: the file is written, or
  the call raises and leaves nothing or a truncated file behind.\<close>

datatype write_outcome = Written bytes | WriteFailed exn "bytes option"

record env =
  cuda_is_available :: bool
  Path :: "string \<Rightarrow> path"
  open_error :: "path \<Rightarrow> exn"
  decode :: "bytes \<Rightarrow> exn + (wave list \<times> nat)"
  denoise :: "wave \<Rightarrow> nat \<Rightarrow> string \<Rightarrow> exn + (wave \<times> nat)"
  enhance :: "wave \<Rightarrow> nat \<Rightarrow> string \<Rightarrow> int \<Rightarrow> string \<Rightarrow> real \<Rightarrow> real \<Rightarrow> exn + (wave \<times> nat)"
  encode :: "wave \<Rightarrow> nat \<Rightarrow> string \<Rightarrow> write_outcome"

datatype event =
    Print string
  | Mkdir path
  | Load path
  | Denoise wave nat string
  | Enhance wave nat string int string real real
  | SfWrite path wave nat string

record world =
  fs :: fsys
  trace :: "event list"

definition emit :: "event \<Rightarrow> world \<Rightarrow> world" where
  "emit ev w = w\<lparr>trace := trace w @ [ev]\<rparr>"

definition print :: "string \<Rightarrow> world \<Rightarrow> world" where
  "print s w = emit (Print s) w"

text \<open>
  \<^verbatim>\<open>Path.mkdir(parents=True, exist_ok=True)\<close>: every missing directory on the way is
  created, an existing directory is kept, and a file in the way raises. The first
  argument of the loop is the part of the path already known to be a directory.
\<close>

fun mkdir_from :: "env \<Rightarrow> fsys \<Rightarrow> path \<Rightarrow> path \<Rightarrow> exn + fsys" where
  "mkdir_from E fsy pre [] = Inr fsy"
| "mkdir_from E fsy pre (c # cs) =
     (case lookup fsy (pre @ [c]) of
        Some Dir \<Rightarrow> mkdir_from E fsy (pre @ [c]) cs
      | Some (File b) \<Rightarrow> Inl (open_error E (pre @ [c]))
      | None \<Rightarrow> mkdir_from E (fsy @ [(pre @ [c], Dir)]) (pre @ [c]) cs)"

definition mkdir :: "env \<Rightarrow> fsys \<Rightarrow> path \<Rightarrow> exn + fsys" where
  "mkdir E fsy p = mkdir_from E fsy [] p"

text \<open>\<^verbatim>\<open>torchaudio.load(audio_path)\<close>: the decoded content of a regular file.\<close>

definition torchaudio_load :: "env \<Rightarrow> fsys \<Rightarrow> path \<Rightarrow> exn + (wave list \<times> nat)" where
  "torchaudio_load E fsy p =
     (case lookup fsy p of
        Some (File b) \<Rightarrow> decode E b
      | _ \<Rightarrow> Inl (open_error E p))"

text \<open>
  \<^verbatim>\<open>sf.write(file, data, samplerate, format)\<close>: the target must lie in a directory
  and be no directory itself; the file is then created or replaced.
\<close>

definition sf_write :: "env \<Rightarrow> fsys \<Rightarrow> path \<Rightarrow> wave \<Rightarrow> nat \<Rightarrow> string \<Rightarrow> exn option \<times> fsys" where
  "sf_write E fsy p data samplerate format =
     (if p = [] \<or> \<not> is_dir fsy (butlast p) \<or> is_dir fsy p then (Some (open_error E p), fsy)
      else (case encode E data samplerate format of
              Written b \<Rightarrow> (None, AList.update p (File b) fsy)
            | WriteFailed e None \<Rightarrow> (Some e, fsy)
            | WriteFailed e (Some b) \<Rightarrow> (Some e, AList.update p (File b) fsy)))"

subsection \<open>\<^verbatim>\<open>class AudioEnhancer\<close>\<close>

record AudioEnhancer =
  device :: string

text \<open>\<^verbatim>\<open>AudioEnhancer.__init__\<close>\<close>

definition init :: "env \<Rightarrow> world \<Rightarrow> world \<times> AudioEnhancer" where
  "init E w =
     (let dev = (if cuda_is_available E then ''cuda'' else ''cpu'')
      in (print (''Using device: '' @ dev) w, \<lparr>device = dev\<rparr>))"

type_synonym tagged = "nat \<times> wave"

text \<open>
  \<^verbatim>\<open>AudioEnhancer.denoise_and_enhance\<close>. Nothing is caught here: the first call
  that raises ends the function with its exception.
\<close>

definition denoise_and_enhance ::
  "env \<Rightarrow> AudioEnhancer \<Rightarrow> world \<Rightarrow> path \<Rightarrow> string \<Rightarrow> number \<Rightarrow> real \<Rightarrow> bool
     \<Rightarrow> world \<times> (exn + (tagged \<times> tagged))" where
  "denoise_and_enhance E self w audio_path solver nfe tau denoising =
     (let solver = lower solver;
          nfe = py_int nfe;
          lambd = (if denoising then 9 / 10 else 1 / 10);
          w = emit (Load audio_path) w
      in case torchaudio_load E (fs w) audio_path of
           Inl e \<Rightarrow> (w, Inl e)
         | Inr (dwav, sr) \<Rightarrow>
            (let dwav = mean_dim0 dwav;
                 w = emit (Denoise dwav sr (device self)) w
             in case denoise E dwav sr (device self) of
                  Inl e \<Rightarrow> (w, Inl e)
                | Inr (wav_denoised, new_sr) \<Rightarrow>
                   (let w = emit (Enhance dwav sr (device self) nfe solver lambd tau) w
                    in case enhance E dwav sr (device self) nfe solver lambd tau of
                         Inl e \<Rightarrow> (w, Inl e)
                       | Inr (wav_enhanced, new_sr) \<Rightarrow>
                           (w, Inr ((new_sr, wav_denoised), (new_sr, wav_enhanced))))))"

text \<open>
  The body of the \<^verbatim>\<open>try\<close> in the loop of \<^verbatim>\<open>process_directory\<close>, for one
  file: the result is the exception that left it, or none.
\<close>

definition try_file ::
  "env \<Rightarrow> AudioEnhancer \<Rightarrow> path \<Rightarrow> string \<Rightarrow> string \<Rightarrow> number \<Rightarrow> real \<Rightarrow> bool \<Rightarrow> bool
     \<Rightarrow> world \<Rightarrow> path \<Rightarrow> world \<times> exn option" where
  "try_file E self output_path audio_format solver nfe tau denoising use_enhanced w audio_file =
     (case denoise_and_enhance E self w audio_file solver nfe tau denoising of
        (w, Inl e) \<Rightarrow> (w, Some e)
      | (w, Inr (denoised_output, enhanced_output)) \<Rightarrow>
         (let (sample_rate, audio_array) = (if use_enhanced then enhanced_output else denoised_output);
              output_filename = joinpath output_path (name audio_file);
              w = emit (SfWrite output_filename audio_array sample_rate (lower audio_format)) w
          in case sf_write E (fs w) output_filename audio_array sample_rate (lower audio_format) of
               (r, fsy) \<Rightarrow> (w\<lparr>fs := fsy\<rparr>, r)))"

text \<open>One round of the loop: the \<^verbatim>\<open>try\<close> and its \<^verbatim>\<open>except Exception\<close>.\<close>

definition process_file ::
  "env \<Rightarrow> AudioEnhancer \<Rightarrow> path \<Rightarrow> string \<Rightarrow> string \<Rightarrow> number \<Rightarrow> real \<Rightarrow> bool \<Rightarrow> bool
     \<Rightarrow> world \<Rightarrow> nat \<Rightarrow> path \<Rightarrow> world \<times> nat" where
  "process_file E self output_path audio_format solver nfe tau denoising use_enhanced
       w successful_count audio_file =
     (case try_file E self output_path audio_format solver nfe tau denoising use_enhanced w audio_file of
        (w, None) \<Rightarrow> (w, successful_count + 1)
      | (w, Some e) \<Rightarrow>
          (print (''Error processing '' @ name audio_file @ '': '' @ str e) w, successful_count))"

text \<open>The \<^verbatim>\<open>for\<close> loop over the files found.\<close>

fun process_files ::
  "env \<Rightarrow> AudioEnhancer \<Rightarrow> path \<Rightarrow> string \<Rightarrow> string \<Rightarrow> number \<Rightarrow> real \<Rightarrow> bool \<Rightarrow> bool
     \<Rightarrow> world \<Rightarrow> nat \<Rightarrow> path list \<Rightarrow> world \<times> nat" where
  "process_files E self output_path audio_format solver nfe tau denoising use_enhanced
       w successful_count [] = (w, successful_count)"
| "process_files E self output_path audio_format solver nfe tau denoising use_enhanced
       w successful_count (audio_file # rest) =
     (case process_file E self output_path audio_format solver nfe tau denoising use_enhanced
             w successful_count audio_file of
        (w, successful_count) \<Rightarrow>
          process_files E self output_path audio_format solver nfe tau denoising use_enhanced
            w successful_count rest)"

text \<open>
  \<^verbatim>\<open>AudioEnhancer.process_directory\<close>. An exception of \<^verbatim>\<open>mkdir\<close> is not
  caught: it leaves the function.
\<close>

definition process_directory ::
  "env \<Rightarrow> AudioEnhancer \<Rightarrow> world \<Rightarrow> string \<Rightarrow> string \<Rightarrow> string \<Rightarrow> string \<Rightarrow> number \<Rightarrow> real \<Rightarrow> bool \<Rightarrow> bool
     \<Rightarrow> world \<times> (exn + nat)" where
  "process_directory E self w input_dir output_dir audio_format solver nfe tau denoising use_enhanced =
     (let input_path = Path E input_dir;
          output_path = Path E output_dir;
          w = emit (Mkdir output_path) w
      in case mkdir E (fs w) output_path of
           Inl e \<Rightarrow> (w, Inl e)
         | Inr fsy \<Rightarrow>
            (let w = w\<lparr>fs := fsy\<rparr>;
                 audio_files = rglob (fs w) input_path audio_format;
                 w = print (''Found '' @ str_nat (length audio_files) @ '' '' @ upper audio_format
                            @ '' files to process'') w
             in if audio_files = [] then (print ''No audio files found!'' w, Inr 0)
                else (case process_files E self output_path audio_format solver nfe tau denoising
                             use_enhanced w 0 audio_files of
                        (w, successful_count) \<Rightarrow>
                          (print (''Successfully processed '' @ str_nat successful_count @ ''/''
                                  @ str_nat (length audio_files) @ '' audio files'') w,
                           Inr successful_count))))"

text \<open>\<^verbatim>\<open>AudioEnhancer.verify_output\<close>\<close>

definition verify_output :: "env \<Rightarrow> AudioEnhancer \<Rightarrow> world \<Rightarrow> string \<Rightarrow> string \<Rightarrow> world \<times> nat" where
  "verify_output E self w output_dir audio_format =
     (let output_path = Path E output_dir
      in if \<not> exists (fs w) output_path
         then (print (''Output directory '' @ output_dir @ '' does not exist!'') w, 0)
         else let processed_files = rglob (fs w) output_path audio_format
              in (print (''Found '' @ str_nat (length processed_files) @ '' processed ''
                         @ upper audio_format @ '' files in output directory'') w,
                  length processed_files))"

subsection \<open>Notions the properties are stated with\<close>

text \<open>
  The result of every round of the loop, in the order of the files: the exception caught
  for the file, or none when the file went through. Each round runs in the world the
  rounds before it left.
\<close>

fun outcomes ::
  "env \<Rightarrow> AudioEnhancer \<Rightarrow> path \<Rightarrow> string \<Rightarrow> string \<Rightarrow> number \<Rightarrow> real \<Rightarrow> bool \<Rightarrow> bool
     \<Rightarrow> world \<Rightarrow> path list \<Rightarrow> exn option list" where
  "outcomes E self output_path audio_format solver nfe tau denoising use_enhanced w [] = []"
| "outcomes E self output_path audio_format solver nfe tau denoising use_enhanced w (audio_file # rest) =
     snd (try_file E self output_path audio_format solver nfe tau denoising use_enhanced w audio_file)
     # outcomes E self output_path audio_format solver nfe tau denoising use_enhanced
         (fst (process_file E self output_path audio_format solver nfe tau denoising use_enhanced
                 w 0 audio_file)) rest"

text \<open>The world in which the loop of \<^verbatim>\<open>process_directory\<close> starts, once the output
  directory is there (with file system \<open>fsy\<close>) and the files found are announced.\<close>

definition loop_start :: "env \<Rightarrow> world \<Rightarrow> fsys \<Rightarrow> string \<Rightarrow> string \<Rightarrow> string \<Rightarrow> world" where
  "loop_start E w fsy input_dir output_dir audio_format =
     print (''Found '' @ str_nat (length (rglob fsy (Path E input_dir) audio_format)) @ '' ''
            @ upper audio_format @ '' files to process'')
       ((emit (Mkdir (Path E output_dir)) w)\<lparr>fs := fsy\<rparr>)"

text \<open>The paths of a file system that lie under a directory.\<close>

definition under :: "fsys \<Rightarrow> path \<Rightarrow> path list" where
  "under fsy d = filter (is_under d) (map fst fsy)"

text \<open>A file system has one entry for a path.\<close>

definition wf_fs :: "fsys \<Rightarrow> bool" where
  "wf_fs fsy = distinct (map fst fsy)"

definition succeeded :: "exn option \<Rightarrow> bool" where
  "succeeded r = (r = None)"

text \<open>The targets of the calls of \<^verbatim>\<open>sf.write\<close> in a trace, in their order.\<close>

fun written_paths :: "event list \<Rightarrow> path list" where
  "written_paths [] = []"
| "written_paths (SfWrite p d sr f # evs) = p # written_paths evs"
| "written_paths (ev # evs) = written_paths evs"

text \<open>What the words "the files under a directory that match the extension" say: the
  regular files under it whose name matches the pattern of the format.\<close>

definition matching_files :: "fsys \<Rightarrow> path \<Rightarrow> string \<Rightarrow> path list" where
  "matching_files fsy base audio_format =
     filter (\<lambda>p. is_file fsy p \<and> is_under base p \<and> fnmatch (name p) (''*.'' @ audio_format))
       (map fst fsy)"

text \<open>A format name with no wildcard character in it.\<close>

definition plain :: "string \<Rightarrow> bool" where
  "plain s = (\<forall>c\<in>set s. c \<noteq> CHR ''*'' \<and> c \<noteq> CHR ''?'' \<and> c \<noteq> CHR ''['')"

text \<open>The path a file is written to.\<close>

definition target :: "path \<Rightarrow> path \<Rightarrow> path" where
  "target output_path audio_file = joinpath output_path (name audio_file)"

subsection \<open>A small run, used to instantiate the theorems\<close>

definition demo_env :: env where
  "demo_env = \<lparr>cuda_is_available = False,
     Path = (\<lambda>s. [s]),
     open_error = (\<lambda>p. Exception ''cannot open''),
     decode = (\<lambda>b. if b = ''RIFF'' then Inr ([[1, 3], [3, 5]], 16000)
                   else if b = ''RIFX'' then Inr ([[0, 0]], 8000)
                   else Inl (Exception ''bad header'')),
     denoise = (\<lambda>d sr dev. Inr (d, sr)),
     enhance = (\<lambda>d sr dev n so l t. Inr (map (\<lambda>x. x * l) d, 44100)),
     encode = (\<lambda>d sr fmt. Written (if list_all (\<lambda>x. x = 0) d then ''silence'' else ''sound''))\<rparr>"

definition demo_world :: world where
  "demo_world = \<lparr>fs = [([''in''], Dir), ([''in'', ''a.wav''], File ''RIFF''),
                      ([''in'', ''b.wav''], File ''junk''), ([''in'', ''sub''], Dir),
                      ([''in'', ''sub'', ''c.wav''], File ''RIFF'')],
                 trace = []\<rparr>"

definition demo_self :: AudioEnhancer where
  "demo_self = \<lparr>device = ''cpu''\<rparr>"

definition demo_fs1 :: fsys where
  "demo_fs1 = fs demo_world @ [([''out''], Dir)]"

definition demo_world1 :: world where
  "demo_world1 = \<lparr>fs = demo_fs1, trace = []\<rparr>"

definition quiet_world :: world where
  "quiet_world = \<lparr>fs = [([''in''], Dir), ([''in'', ''notes.txt''], File ''hello'')], trace = []\<rparr>"

definition odd_world :: world where
  "odd_world = \<lparr>fs = [([''out''], Dir), ([''out'', ''take1.wav''], Dir),
                     ([''out'', ''take1.wav'', ''notes.txt''], File ''hello'')],
                trace = []\<rparr>"

definition twin_world :: world where
  "twin_world = \<lparr>fs = [([''in''], Dir), ([''in'', ''a''], Dir), ([''in'', ''a'', ''x.wav''], File ''RIFF''),
                      ([''in'', ''b''], Dir), ([''in'', ''b'', ''x.wav''], File ''RIFX'')],
                 trace = []\<rparr>"

definition twin_fs1 :: fsys where
  "twin_fs1 = fs twin_world @ [([''out''], Dir)]"

definition good_world :: world where
  "good_world = \<lparr>fs = [([''in''], Dir), ([''in'', ''a.wav''], File ''RIFF''), ([''in'', ''sub''], Dir),
                      ([''in'', ''sub'', ''c.wav''], File ''RIFX'')],
                 trace = []\<rparr>"

definition good_fs1 :: fsys where
  "good_fs1 = fs good_world @ [([''out''], Dir)]"

definition failing_env :: env where
  "failing_env = demo_env\<lparr>denoise := (\<lambda>d sr dev. Inl (Exception ''CUDA out of memory''))\<rparr>"

definition trio_world :: world where
  "trio_world = \<lparr>fs = [([''in''], Dir), ([''in'', ''a''], Dir), ([''in'', ''a'', ''x.wav''], File ''RIFF''),
                      ([''in'', ''b''], Dir), ([''in'', ''b'', ''x.wav''], File ''RIFX''),
                      ([''in'', ''c.wav''], File ''junk'')],
                 trace = []\<rparr>"

definition trio_fs1 :: fsys where
  "trio_fs1 = fs trio_world @ [([''out''], Dir)]"

section \<open>Facts about the model\<close>

lemma fs_emit: "fs (emit ev w) = fs w"
  by (simp add: emit_def)

lemma trace_emit: "trace (emit ev w) = trace w @ [ev]"
  by (simp add: emit_def)

lemma fs_print: "fs (print s w) = fs w"
  by (simp add: print_def emit_def)

lemma trace_print: "trace (print s w) = trace w @ [Print s]"
  by (simp add: print_def emit_def)

lemma dae_fs: "fs (fst (denoise_and_enhance E self w f so nfe tau den)) = fs w"
  by (simp add: denoise_and_enhance_def Let_def fs_emit split: sum.splits prod.splits)


lemma sf_write_cases:
  "sf_write E fsy p d sr fmt = (r, fsy') \<Longrightarrow>
     (r = None \<longrightarrow> (\<exists>b. fsy' = AList.update p (File b) fsy) \<and> is_dir fsy (butlast p) \<and> p \<noteq> [])
     \<and> (fsy' = fsy \<or> (\<exists>b. fsy' = AList.update p (File b) fsy))"
  by (auto simp: sf_write_def split: if_splits write_outcome.splits option.splits)

lemma try_file_fs:
  assumes "try_file E self out fmt so nfe tau den use w f = (w', r)"
  shows "(r = None \<longrightarrow> (\<exists>b. fs w' = AList.update (joinpath out (name f)) (File b) (fs w)) \<and> is_dir (fs w) out)
     \<and> (fs w' = fs w \<or> (\<exists>b. fs w' = AList.update (joinpath out (name f)) (File b) (fs w)))"
proof (cases "denoise_and_enhance E self w f so nfe tau den")
  case (Pair w1 res)
  have f1: "fs w1 = fs w" using dae_fs[of E self w f so nfe tau den] Pair by simp
  show ?thesis
  proof (cases res)
    case (Inl e)
    with Pair assms f1 show ?thesis by (auto simp: try_file_def)
  next
    case (Inr pr)
    obtain d1 e1 where pr: "pr = (d1, e1)" by (cases pr)
    obtain sr arr where sel: "(if use then e1 else d1) = (sr, arr)" by (cases "if use then e1 else d1")
    obtain r2 fsy2 where sw: "sf_write E (fs w) (joinpath out (name f)) arr sr (lower fmt) = (r2, fsy2)"
      by (cases "sf_write E (fs w) (joinpath out (name f)) arr sr (lower fmt)")
    from assms Pair Inr pr sel sw f1 have "w' = (emit (SfWrite (joinpath out (name f)) arr sr (lower fmt)) w1)\<lparr>fs := fsy2\<rparr>" "r = r2"
      by (auto simp: try_file_def Let_def fs_emit)
    then have "fs w' = fsy2" "r = r2" by simp_all
    with sf_write_cases[OF sw] show ?thesis by (auto simp: joinpath_def)
  qed
qed


lemma lookup_update:
  "lookup (AList.update p v fsy) q = (if q = [] then Some Dir else if q = p then Some v else lookup fsy q)"
  by (simp add: lookup_def update_conv')

lemma sf_write_is_dir:
  "sf_write E fsy p d sr fmt = (r, fsy') \<Longrightarrow> is_dir fsy q \<Longrightarrow> is_dir fsy' q"
  by (auto simp: sf_write_def is_dir_def lookup_update split: if_splits write_outcome.splits option.splits)

lemma lookup_Nil: "lookup fsy [] = Some Dir"
  by (simp add: lookup_def)

lemma is_file_update:
  "is_file fsy q \<Longrightarrow> is_file (AList.update p (File b) fsy) q"
  by (cases "q = []"; cases "q = p") (simp_all add: is_file_def lookup_update lookup_Nil)

lemma is_file_update_same:
  "p \<noteq> [] \<Longrightarrow> is_file (AList.update p (File b) fsy) p"
  by (simp add: is_file_def lookup_update)

lemma sf_write_is_file:
  "sf_write E fsy p d sr fmt = (r, fsy') \<Longrightarrow> is_file fsy q \<Longrightarrow> is_file fsy' q"
  using sf_write_cases[of E fsy p d sr fmt r fsy'] by (auto simp: is_file_update)

lemma try_file_keeps:
  assumes "try_file E self out fmt so nfe tau den use w f = (w', r)"
  shows "(is_dir (fs w) q \<longrightarrow> is_dir (fs w') q) \<and> (is_file (fs w) q \<longrightarrow> is_file (fs w') q)"
proof (cases "denoise_and_enhance E self w f so nfe tau den")
  case (Pair w1 res)
  have f1: "fs w1 = fs w" using dae_fs[of E self w f so nfe tau den] Pair by simp
  show ?thesis
  proof (cases res)
    case (Inl e)
    with Pair assms f1 show ?thesis by (auto simp: try_file_def)
  next
    case (Inr pr)
    obtain d1 e1 where pr: "pr = (d1, e1)" by (cases pr)
    obtain sr arr where sel: "(if use then e1 else d1) = (sr, arr)" by (cases "if use then e1 else d1")
    obtain r2 fsy2 where sw: "sf_write E (fs w) (joinpath out (name f)) arr sr (lower fmt) = (r2, fsy2)"
      by (cases "sf_write E (fs w) (joinpath out (name f)) arr sr (lower fmt)")
    from assms Pair Inr pr sel sw f1 have "w' = (emit (SfWrite (joinpath out (name f)) arr sr (lower fmt)) w1)\<lparr>fs := fsy2\<rparr>"
      by (auto simp: try_file_def Let_def fs_emit)
    then have "fs w' = fsy2" by simp
    with sf_write_is_dir[OF sw] sf_write_is_file[OF sw] show ?thesis by auto
  qed
qed


lemma process_file_world:
  "fst (process_file E self out fmt so nfe tau den use w c f) =
     (case try_file E self out fmt so nfe tau den use w f of
        (w1, None) \<Rightarrow> w1
      | (w1, Some e) \<Rightarrow> print (''Error processing '' @ name f @ '': '' @ str e) w1)"
  by (simp add: process_file_def split: prod.splits option.splits)

lemma process_file_count:
  "snd (process_file E self out fmt so nfe tau den use w c f) =
     (if succeeded (snd (try_file E self out fmt so nfe tau den use w f)) then c + 1 else c)"
  by (simp add: process_file_def succeeded_def split: prod.splits option.splits)

lemma process_file_fs:
  "fs (fst (process_file E self out fmt so nfe tau den use w c f)) =
   fs (fst (try_file E self out fmt so nfe tau den use w f))"
  by (simp add: process_file_world fs_print split: prod.splits option.splits)




lemma process_file_world_indep:
  "fst (process_file E self out fmt so nfe tau den use w c f) =
   fst (process_file E self out fmt so nfe tau den use w 0 f)"
  by (simp add: process_file_world)

lemma process_files_Cons:
  "process_files E self out fmt so nfe tau den use w c (f # rest) =
     process_files E self out fmt so nfe tau den use
       (fst (process_file E self out fmt so nfe tau den use w 0 f))
       (if succeeded (snd (try_file E self out fmt so nfe tau den use w f)) then c + 1 else c) rest"
proof (cases "process_file E self out fmt so nfe tau den use w c f")
  case (Pair w1 c1)
  have "w1 = fst (process_file E self out fmt so nfe tau den use w 0 f)"
    using process_file_world_indep[of E self out fmt so nfe tau den use w c f] Pair by simp
  moreover have "c1 = (if succeeded (snd (try_file E self out fmt so nfe tau den use w f)) then c + 1 else c)"
    using process_file_count[of E self out fmt so nfe tau den use w c f] Pair by simp
  ultimately show ?thesis using Pair by simp
qed

lemma outcomes_length:
  "length (outcomes E self out fmt so nfe tau den use w files) = length files"
  by (induction files arbitrary: w) simp_all

lemma process_files_count:
  "snd (process_files E self out fmt so nfe tau den use w c files) =
     c + length (filter succeeded (outcomes E self out fmt so nfe tau den use w files))"
proof (induction files arbitrary: w c)
  case Nil
  then show ?case by simp
next
  case (Cons f rest)
  show ?case
    unfolding process_files_Cons by (simp add: Cons.IH)
qed


lemma process_file_keeps:
  "(is_dir (fs w) q \<longrightarrow> is_dir (fs (fst (process_file E self out fmt so nfe tau den use w c f))) q)
   \<and> (is_file (fs w) q \<longrightarrow> is_file (fs (fst (process_file E self out fmt so nfe tau den use w c f))) q)"
  unfolding process_file_fs
  using try_file_keeps[of E self out fmt so nfe tau den use w f] by (metis prod.collapse)

lemma process_files_keeps:
  "(is_dir (fs w) q \<longrightarrow> is_dir (fs (fst (process_files E self out fmt so nfe tau den use w c files))) q)
   \<and> (is_file (fs w) q \<longrightarrow> is_file (fs (fst (process_files E self out fmt so nfe tau den use w c files))) q)"
proof (induction files arbitrary: w c)
  case Nil
  then show ?case by simp
next
  case (Cons f rest)
  show ?case
    unfolding process_files_Cons
    using Cons.IH[of "fst (process_file E self out fmt so nfe tau den use w 0 f)"]
          process_file_keeps[of w q E self out fmt so nfe tau den use 0 f]
    by blast
qed


lemma try_file_written:
  assumes "snd (try_file E self out fmt so nfe tau den use w f) = None"
  shows "is_file (fs (fst (try_file E self out fmt so nfe tau den use w f))) (joinpath out (name f))"
proof -
  obtain w1 where tf: "try_file E self out fmt so nfe tau den use w f = (w1, None)"
    using assms by (cases "try_file E self out fmt so nfe tau den use w f") simp
  from try_file_fs[OF tf] obtain b where "fs w1 = AList.update (joinpath out (name f)) (File b) (fs w)"
    by auto
  with tf show ?thesis by (simp add: is_file_update_same joinpath_def)
qed

lemma process_files_written:
  assumes "i < length files"
    and "outcomes E self out fmt so nfe tau den use w files ! i = None"
  shows "is_file (fs (fst (process_files E self out fmt so nfe tau den use w c files)))
           (joinpath out (name (files ! i)))"
  using assms
proof (induction files arbitrary: w c i)
  case Nil
  then show ?case by simp
next
  case (Cons f rest)
  let ?w1 = "fst (process_file E self out fmt so nfe tau den use w 0 f)"
  show ?case
  proof (cases i)
    case 0
    with Cons.prems have r: "snd (try_file E self out fmt so nfe tau den use w f) = None" by simp
    have "is_file (fs ?w1) (joinpath out (name f))"
      using try_file_written[OF r] by (simp add: process_file_fs)
    with 0 show ?thesis
      unfolding process_files_Cons using process_files_keeps by simp
  next
    case (Suc j)
    with Cons.prems have "j < length rest"
      "outcomes E self out fmt so nfe tau den use ?w1 rest ! j = None" by simp_all
    from Cons.IH[OF this] Suc show ?thesis unfolding process_files_Cons by simp
  qed
qed


lemma process_directory_unfold:
  assumes "mkdir E (fs w) (Path E output_dir) = Inr fsy"
  shows "process_directory E self w input_dir output_dir fmt so nfe tau den use =
     (if rglob fsy (Path E input_dir) fmt = []
      then (print ''No audio files found!'' (loop_start E w fsy input_dir output_dir fmt), Inr 0)
      else (print (''Successfully processed ''
                   @ str_nat (snd (process_files E self (Path E output_dir) fmt so nfe tau den use
                        (loop_start E w fsy input_dir output_dir fmt) 0 (rglob fsy (Path E input_dir) fmt)))
                   @ ''/'' @ str_nat (length (rglob fsy (Path E input_dir) fmt)) @ '' audio files'')
              (fst (process_files E self (Path E output_dir) fmt so nfe tau den use
                        (loop_start E w fsy input_dir output_dir fmt) 0 (rglob fsy (Path E input_dir) fmt))),
            Inr (snd (process_files E self (Path E output_dir) fmt so nfe tau den use
                        (loop_start E w fsy input_dir output_dir fmt) 0 (rglob fsy (Path E input_dir) fmt)))))"
  using assms
  by (simp add: process_directory_def loop_start_def Let_def fs_emit split: prod.splits)


lemma denoise_and_enhance_trace:
  "trace (fst (denoise_and_enhance E self w f so nfe tau den)) =
     trace w @ Load f #
       (case torchaudio_load E (fs w) f of
          Inl e \<Rightarrow> []
        | Inr (chans, sr) \<Rightarrow>
            Denoise (mean_dim0 chans) sr (device self) #
              (case denoise E (mean_dim0 chans) sr (device self) of
                 Inl e \<Rightarrow> []
               | Inr r \<Rightarrow> [Enhance (mean_dim0 chans) sr (device self) (py_int nfe) (lower so)
                              (if den then 9 / 10 else 1 / 10) tau]))"
  by (simp add: denoise_and_enhance_def Let_def fs_emit trace_emit split: sum.splits prod.splits)

lemma denoise_and_enhance_result:
  "snd (denoise_and_enhance E self w f so nfe tau den) =
     (case torchaudio_load E (fs w) f of
        Inl e \<Rightarrow> Inl e
      | Inr (chans, sr) \<Rightarrow>
          (case denoise E (mean_dim0 chans) sr (device self) of
             Inl e \<Rightarrow> Inl e
           | Inr (wav_denoised, sr_d) \<Rightarrow>
               (case enhance E (mean_dim0 chans) sr (device self) (py_int nfe) (lower so)
                       (if den then 9 / 10 else 1 / 10) tau of
                  Inl e \<Rightarrow> Inl e
                | Inr (wav_enhanced, sr_e) \<Rightarrow> Inr ((sr_e, wav_denoised), (sr_e, wav_enhanced)))))"
  by (simp add: denoise_and_enhance_def Let_def fs_emit split: sum.splits prod.splits)

lemma mean_dim0_nth:
  assumes "chans \<noteq> []" and "\<forall>c\<in>set chans. length c = n"
  shows "length (mean_dim0 chans) = n"
    and "\<forall>t<n. mean_dim0 chans ! t = (\<Sum>c\<leftarrow>chans. c ! t) / real (length chans)"
  using assms by (cases chans; simp add: mean_dim0_def)+


lemma lookup_None_key: "q \<noteq> [] \<Longrightarrow> lookup fsy q = None \<Longrightarrow> q \<notin> set (map fst fsy)"
  by (simp add: lookup_def map_of_eq_None_iff)

lemma lookup_append_old: "lookup fsy q = Some v \<Longrightarrow> lookup (fsy @ ext) q = Some v"
  by (auto simp: lookup_def map_add_def split: if_splits)

lemma lookup_append_new: "q \<noteq> [] \<Longrightarrow> lookup fsy q = None \<Longrightarrow> lookup (fsy @ [(q, v)]) q = Some v"
  by (simp add: lookup_def map_add_def)

lemma mkdir_from_added:
  "mkdir_from E fsy pre cs = Inr fsy' \<Longrightarrow>
     \<exists>ds. fsy' = fsy @ map (\<lambda>d. (d, Dir)) ds
        \<and> (\<forall>d\<in>set ds. \<exists>k. 0 < k \<and> k \<le> length cs \<and> d = pre @ take k cs)
        \<and> set ds \<inter> set (map fst fsy) = {}
        \<and> distinct ds"
proof (induction cs arbitrary: fsy pre)
  case Nil
  then show ?case by simp
next
  case (Cons c cs)
  let ?q = "pre @ [c]"
  show ?case
  proof (cases "lookup fsy ?q")
    case None
    with Cons.prems have rec: "mkdir_from E (fsy @ [(?q, Dir)]) ?q cs = Inr fsy'" by simp
    from Cons.IH[OF rec] obtain ds where ds: "fsy' = (fsy @ [(?q, Dir)]) @ map (\<lambda>d. (d, Dir)) ds"
      "\<forall>d\<in>set ds. \<exists>k. 0 < k \<and> k \<le> length cs \<and> d = ?q @ take k cs"
      "set ds \<inter> set (map fst (fsy @ [(?q, Dir)])) = {}" "distinct ds" by blast
    have q: "?q \<notin> set (map fst fsy)" using None lookup_None_key by simp
    have a: "fsy' = fsy @ map (\<lambda>d. (d, Dir)) (?q # ds)" using ds(1) by simp
    have b: "\<forall>d\<in>set (?q # ds). \<exists>k. 0 < k \<and> k \<le> length (c # cs) \<and> d = pre @ take k (c # cs)"
    proof
      fix d assume "d \<in> set (?q # ds)"
      then consider "d = ?q" | "d \<in> set ds" by auto
      then show "\<exists>k. 0 < k \<and> k \<le> length (c # cs) \<and> d = pre @ take k (c # cs)"
      proof cases
        case 1
        then have "0 < (1::nat) \<and> 1 \<le> length (c # cs) \<and> d = pre @ take 1 (c # cs)" by simp
        then show ?thesis by blast
      next
        case 2
        with ds(2) obtain k where "0 < k" "k \<le> length cs" "d = ?q @ take k cs" by blast
        then have "0 < Suc k \<and> Suc k \<le> length (c # cs) \<and> d = pre @ take (Suc k) (c # cs)" by simp
        then show ?thesis by blast
      qed
    qed
    have c: "set (?q # ds) \<inter> set (map fst fsy) = {}" using ds(3) q by auto
    have d: "distinct (?q # ds)" using ds(3,4) by auto
    from a b c d show ?thesis by blast
  next
    case (Some en)
    show ?thesis
    proof (cases en)
      case (File b)
      with Some Cons.prems show ?thesis by simp
    next
      case Dir
      with Some Cons.prems have rec: "mkdir_from E fsy ?q cs = Inr fsy'" by simp
      from Cons.IH[OF rec] obtain ds where ds: "fsy' = fsy @ map (\<lambda>d. (d, Dir)) ds"
        "\<forall>d\<in>set ds. \<exists>k. 0 < k \<and> k \<le> length cs \<and> d = ?q @ take k cs"
        "set ds \<inter> set (map fst fsy) = {}" "distinct ds" by blast
      have "\<forall>d\<in>set ds. \<exists>k. 0 < k \<and> k \<le> length (c # cs) \<and> d = pre @ take k (c # cs)"
      proof
        fix d assume "d \<in> set ds"
        with ds(2) obtain k where "0 < k" "k \<le> length cs" "d = ?q @ take k cs" by blast
        then have "0 < Suc k \<and> Suc k \<le> length (c # cs) \<and> d = pre @ take (Suc k) (c # cs)" by simp
        then show "\<exists>k. 0 < k \<and> k \<le> length (c # cs) \<and> d = pre @ take k (c # cs)" by blast
      qed
      with ds show ?thesis by blast
    qed
  qed
qed

lemma mkdir_from_is_dir:
  "mkdir_from E fsy pre cs = Inr fsy' \<Longrightarrow> is_dir fsy pre \<Longrightarrow> is_dir fsy' (pre @ cs)"
proof (induction cs arbitrary: fsy pre)
  case Nil
  then show ?case by simp
next
  case (Cons c cs)
  let ?q = "pre @ [c]"
  show ?case
  proof (cases "lookup fsy ?q")
    case None
    with Cons.prems have rec: "mkdir_from E (fsy @ [(?q, Dir)]) ?q cs = Inr fsy'" by simp
    have "is_dir (fsy @ [(?q, Dir)]) ?q"
      using None lookup_append_new[of ?q fsy Dir] by (simp add: is_dir_def)
    from Cons.IH[OF rec this] show ?thesis by simp
  next
    case (Some en)
    show ?thesis
    proof (cases en)
      case (File b)
      with Some Cons.prems show ?thesis by simp
    next
      case Dir
      with Some Cons.prems have rec: "mkdir_from E fsy ?q cs = Inr fsy'" by simp
      have "is_dir fsy ?q" using Some Dir by (simp add: is_dir_def)
      from Cons.IH[OF rec this] show ?thesis by simp
    qed
  qed
qed

lemma mkdir_added:
  assumes "mkdir E fsy p = Inr fsy'"
  shows "\<exists>ds. fsy' = fsy @ map (\<lambda>d. (d, Dir)) ds
        \<and> (\<forall>d\<in>set ds. \<exists>k. 0 < k \<and> k \<le> length p \<and> d = take k p)
        \<and> set ds \<inter> set (map fst fsy) = {}
        \<and> distinct ds"
  using mkdir_from_added[of E fsy "[]" p fsy'] assms by (simp add: mkdir_def)

lemma mkdir_is_dir:
  assumes "mkdir E fsy p = Inr fsy'"
  shows "is_dir fsy' p"
  using mkdir_from_is_dir[of E fsy "[]" p fsy'] assms by (simp add: mkdir_def is_dir_def lookup_Nil)

lemma not_under_prefix: "\<not> is_under p (take k p)"
  by (simp add: is_under_def)

lemma mkdir_under:
  assumes "mkdir E fsy p = Inr fsy'"
  shows "under fsy' p = under fsy p"
proof -
  from mkdir_added[OF assms] obtain ds where ds: "fsy' = fsy @ map (\<lambda>d. (d, Dir)) ds"
    "\<forall>d\<in>set ds. \<exists>k. 0 < k \<and> k \<le> length p \<and> d = take k p" by blast
  have "filter (is_under p) ds = []"
    using ds(2) not_under_prefix by (fastforce simp: filter_empty_conv)
  then show ?thesis by (simp add: under_def ds(1) comp_def)
qed

lemma mkdir_wf:
  assumes "mkdir E fsy p = Inr fsy'" and "wf_fs fsy"
  shows "wf_fs fsy'"
proof -
  from mkdir_added[OF assms(1)] obtain ds where ds: "fsy' = fsy @ map (\<lambda>d. (d, Dir)) ds"
    "set ds \<inter> set (map fst fsy) = {}" "distinct ds" by blast
  then show ?thesis using assms(2) by (auto simp: wf_fs_def comp_def)
qed

lemma written_paths_append: "written_paths (xs @ ys) = written_paths xs @ written_paths ys"
  by (induction xs rule: written_paths.induct) simp_all

lemma try_file_not_file:
  assumes "\<not> is_file (fs w) f"
  shows "try_file E self out fmt so nfe tau den use w f = (emit (Load f) w, Some (open_error E f))"
proof -
  have "torchaudio_load E (fs w) f = Inl (open_error E f)"
    using assms by (simp add: torchaudio_load_def is_file_def split: option.splits entry.splits)
  then show ?thesis
    by (simp add: try_file_def denoise_and_enhance_def Let_def fs_emit)
qed

lemma process_files_no_files:
  assumes "\<forall>f\<in>set files. \<not> is_file (fs w) f"
  shows "snd (process_files E self out fmt so nfe tau den use w c files) = c
     \<and> fs (fst (process_files E self out fmt so nfe tau den use w c files)) = fs w
     \<and> written_paths (trace (fst (process_files E self out fmt so nfe tau den use w c files)))
         = written_paths (trace w)"
  using assms
proof (induction files arbitrary: w c)
  case Nil
  then show ?case by simp
next
  case (Cons f rest)
  let ?w1 = "fst (process_file E self out fmt so nfe tau den use w 0 f)"
  have nf: "\<not> is_file (fs w) f" using Cons.prems by simp
  have w1: "?w1 = print (''Error processing '' @ name f @ '': '' @ str (open_error E f)) (emit (Load f) w)"
    by (simp add: process_file_world try_file_not_file[OF nf])
  have fs1: "fs ?w1 = fs w" by (simp add: w1 fs_print fs_emit)
  have wp1: "written_paths (trace ?w1) = written_paths (trace w)"
    by (simp add: w1 trace_print trace_emit written_paths_append)
  have "\<forall>f\<in>set rest. \<not> is_file (fs ?w1) f" using Cons.prems fs1 by simp
  from Cons.IH[OF this, of c] fs1 wp1 show ?case
    unfolding process_files_Cons by (simp add: try_file_not_file[OF nf] succeeded_def)
qed

lemma str_nat_0: "str_nat 0 = ''0''"
  by (simp add: str_nat.simps digit_char_def)

lemma key_is_file_or_dir:
  assumes "p \<in> set (map fst fsy)" and "p \<noteq> []"
  shows "is_file fsy p \<or> is_dir fsy p"
proof -
  from assms(1) obtain v where "map_of fsy p = Some v"
    by (metis map_of_eq_None_iff not_None_eq set_map)
  with assms(2) show ?thesis
    by (cases v) (simp_all add: is_file_def is_dir_def lookup_def)
qed

lemma is_file_not_dir: "is_file fsy p \<Longrightarrow> \<not> is_dir fsy p"
  by (auto simp: is_file_def is_dir_def split: option.splits entry.splits)

lemma is_under_nonempty: "is_under base p \<Longrightarrow> p \<noteq> []"
  by (auto simp: is_under_def)


lemma keys_update: "set (map fst (AList.update k v al)) = insert k (set (map fst al))"
  using dom_update[of k v al] by auto

lemma wf_update: "wf_fs fsy \<Longrightarrow> wf_fs (AList.update k v fsy)"
  by (simp add: wf_fs_def distinct_update)

lemma try_file_keys:
  "set (map fst (fs w)) \<subseteq> set (map fst (fs (fst (try_file E self out fmt so nfe tau den use w f))))
   \<and> (snd (try_file E self out fmt so nfe tau den use w f) = None \<longrightarrow>
        set (map fst (fs (fst (try_file E self out fmt so nfe tau den use w f))))
          = insert (target out f) (set (map fst (fs w))))
   \<and> (wf_fs (fs w) \<longrightarrow> wf_fs (fs (fst (try_file E self out fmt so nfe tau den use w f))))"
proof -
  obtain w1 r where tf: "try_file E self out fmt so nfe tau den use w f = (w1, r)"
    by (cases "try_file E self out fmt so nfe tau den use w f")
  from try_file_fs[OF tf]
  have a: "r = None \<longrightarrow> (\<exists>b. fs w1 = AList.update (target out f) (File b) (fs w))"
    and b: "fs w1 = fs w \<or> (\<exists>b. fs w1 = AList.update (target out f) (File b) (fs w))"
    by (auto simp: target_def)
  have c1: "set (map fst (fs w)) \<subseteq> set (map fst (fs w1))"
  proof (cases "fs w1 = fs w")
    case True
    then show ?thesis by simp
  next
    case False
    with b obtain bb where "fs w1 = AList.update (target out f) (File bb) (fs w)" by blast
    then show ?thesis by (simp only: keys_update) blast
  qed
  have c2: "r = None \<longrightarrow> set (map fst (fs w1)) = insert (target out f) (set (map fst (fs w)))"
  proof
    assume "r = None"
    with a obtain bb where "fs w1 = AList.update (target out f) (File bb) (fs w)" by blast
    then show "set (map fst (fs w1)) = insert (target out f) (set (map fst (fs w)))"
      by (simp only: keys_update)
  qed
  have c3: "wf_fs (fs w) \<longrightarrow> wf_fs (fs w1)"
  proof (cases "fs w1 = fs w")
    case True
    then show ?thesis by simp
  next
    case False
    with b obtain bb where "fs w1 = AList.update (target out f) (File bb) (fs w)" by blast
    then show ?thesis using wf_update[of "fs w" "target out f" "File bb"] by simp
  qed
  from c1 c2 c3 show ?thesis by (simp add: tf)
qed

lemma try_file_success_writes:
  assumes "snd (try_file E self out fmt so nfe tau den use w f) = None"
  shows "written_paths (trace (fst (try_file E self out fmt so nfe tau den use w f)))
           = written_paths (trace w) @ [target out f]"
proof (cases "denoise_and_enhance E self w f so nfe tau den")
  case (Pair w1 res)
  have t1: "written_paths (trace w1) = written_paths (trace w)"
    using denoise_and_enhance_trace[of E self w f so nfe tau den] Pair
    by (simp add: written_paths_append split: sum.splits prod.splits)
  show ?thesis
  proof (cases res)
    case (Inl e)
    with Pair assms show ?thesis by (simp add: try_file_def)
  next
    case (Inr pr)
    obtain d1 e1 where pr: "pr = (d1, e1)" by (cases pr)
    obtain sr arr where sel: "(if use then e1 else d1) = (sr, arr)"
      by (cases "if use then e1 else d1")
    have "trace (fst (try_file E self out fmt so nfe tau den use w f))
            = trace w1 @ [SfWrite (target out f) arr sr (lower fmt)]"
      using Pair Inr pr sel by (simp add: try_file_def Let_def trace_emit target_def split: prod.splits)
    with t1 show ?thesis by (simp add: written_paths_append)
  qed
qed

lemma process_file_world_success:
  assumes "snd (try_file E self out fmt so nfe tau den use w f) = None"
  shows "fst (process_file E self out fmt so nfe tau den use w c f)
           = fst (try_file E self out fmt so nfe tau den use w f)"
proof -
  obtain w1 where "try_file E self out fmt so nfe tau den use w f = (w1, None)"
    using assms by (cases "try_file E self out fmt so nfe tau den use w f") simp
  then show ?thesis by (simp add: process_file_world)
qed

lemma process_files_wf:
  "wf_fs (fs w) \<Longrightarrow> wf_fs (fs (fst (process_files E self out fmt so nfe tau den use w c files)))"
proof (induction files arbitrary: w c)
  case Nil
  then show ?case by simp
next
  case (Cons f rest)
  have "wf_fs (fs (fst (process_file E self out fmt so nfe tau den use w 0 f)))"
    using Cons.prems try_file_keys[of w E self out fmt so nfe tau den use f]
    by (simp add: process_file_fs)
  from Cons.IH[OF this] show ?case unfolding process_files_Cons .
qed

lemma process_files_all_succeeded:
  assumes "list_all succeeded (outcomes E self out fmt so nfe tau den use w files)"
  shows "snd (process_files E self out fmt so nfe tau den use w c files) = c + length files
     \<and> set (map fst (fs (fst (process_files E self out fmt so nfe tau den use w c files))))
         = set (map fst (fs w)) \<union> target out ` set files
     \<and> written_paths (trace (fst (process_files E self out fmt so nfe tau den use w c files)))
         = written_paths (trace w) @ map (target out) files"
  using assms
proof (induction files arbitrary: w c)
  case Nil
  then show ?case by simp
next
  case (Cons f rest)
  let ?w1 = "fst (process_file E self out fmt so nfe tau den use w 0 f)"
  from Cons.prems have ok: "snd (try_file E self out fmt so nfe tau den use w f) = None"
    by (simp add: succeeded_def)
  from Cons.prems have rest: "list_all succeeded (outcomes E self out fmt so nfe tau den use ?w1 rest)"
    by simp
  have w1: "?w1 = fst (try_file E self out fmt so nfe tau den use w f)"
    using process_file_world_success[OF ok] .
  have k1: "set (map fst (fs ?w1)) = insert (target out f) (set (map fst (fs w)))"
    using try_file_keys[of w E self out fmt so nfe tau den use f] ok by (simp add: w1)
  have t1: "written_paths (trace ?w1) = written_paths (trace w) @ [target out f]"
    using try_file_success_writes[OF ok] by (simp add: w1)
  have step: "process_files E self out fmt so nfe tau den use w c (f # rest)
                = process_files E self out fmt so nfe tau den use ?w1 (c + 1) rest"
    by (simp only: process_files_Cons ok succeeded_def refl if_True)
  let ?fin = "process_files E self out fmt so nfe tau den use ?w1 (c + 1) rest"
  note ih = Cons.IH[OF rest, of "c + 1"]
  have "snd ?fin = c + 1 + length rest"
    by (rule ih[THEN conjunct1])
  then have a: "snd ?fin = c + length (f # rest)"
    by simp
  have "set (map fst (fs (fst ?fin))) = set (map fst (fs ?w1)) \<union> target out ` set rest"
    by (rule ih[THEN conjunct2, THEN conjunct1])
  also have "\<dots> = insert (target out f) (set (map fst (fs w))) \<union> target out ` set rest"
    by (simp only: k1)
  also have "\<dots> = set (map fst (fs w)) \<union> target out ` set (f # rest)"
    by auto
  finally have b: "set (map fst (fs (fst ?fin))) = set (map fst (fs w)) \<union> target out ` set (f # rest)" .
  have "written_paths (trace (fst ?fin)) = written_paths (trace ?w1) @ map (target out) rest"
    by (rule ih[THEN conjunct2, THEN conjunct2])
  also have "\<dots> = (written_paths (trace w) @ [target out f]) @ map (target out) rest"
    by (simp only: t1)
  also have "\<dots> = written_paths (trace w) @ map (target out) (f # rest)"
    by simp
  finally have d: "written_paths (trace (fst ?fin)) = written_paths (trace w) @ map (target out) (f # rest)" .
  from a b d show ?case by (simp only: step)
qed

lemma target_under: "is_under out (target out f)"
  by (simp add: is_under_def target_def joinpath_def)

lemma name_target: "name (target out f) = name f"
  by (simp add: target_def joinpath_def name_def)


lemma card_targets: "card (target out ` set files) = card (set (map name files))"
proof -
  have "target out ` set files = (\<lambda>n. joinpath out n) ` set (map name files)"
    by (auto simp: target_def)
  moreover have "inj_on (\<lambda>n. joinpath out n) (set (map name files))"
    by (simp add: inj_on_def joinpath_def)
  ultimately show ?thesis by (simp add: card_image)
qed

lemma under_length_card:
  "wf_fs fsy \<Longrightarrow> length (under fsy d) = card {p \<in> set (map fst fsy). is_under d p}"
proof -
  assume "wf_fs fsy"
  then have "distinct (map fst fsy)" by (simp add: wf_fs_def)
  then have "length (filter (is_under d) (map fst fsy)) = card ({p. is_under d p} \<inter> set (map fst fsy))"
    by (rule distinct_length_filter)
  moreover have "{p. is_under d p} \<inter> set (map fst fsy) = {p \<in> set (map fst fsy). is_under d p}" by blast
  ultimately show ?thesis by (simp add: under_def)
qed

lemma set_under: "set (under fsy d) = {p \<in> set (map fst fsy). is_under d p}"
  by (auto simp: under_def)

lemma batch_all_succeeded:
  assumes mk: "mkdir E (fs w) (Path E output_dir) = Inr fsy"
    and ok: "list_all succeeded (outcomes E self (Path E output_dir) fmt so nfe tau den use
               (loop_start E w fsy input_dir output_dir fmt) (rglob fsy (Path E input_dir) fmt))"
  shows "snd (process_directory E self w input_dir output_dir fmt so nfe tau den use)
           = Inr (length (rglob fsy (Path E input_dir) fmt))"
    and "set (map fst (fs (fst (process_directory E self w input_dir output_dir fmt so nfe tau den use))))
           = set (map fst fsy) \<union> target (Path E output_dir) ` set (rglob fsy (Path E input_dir) fmt)"
    and "written_paths (trace (fst (process_directory E self w input_dir output_dir fmt so nfe tau den use)))
           = written_paths (trace w) @ map (target (Path E output_dir)) (rglob fsy (Path E input_dir) fmt)"
    and "wf_fs (fs w) \<Longrightarrow> wf_fs (fs (fst (process_directory E self w input_dir output_dir fmt so nfe tau den use)))"
    and "is_dir (fs (fst (process_directory E self w input_dir output_dir fmt so nfe tau den use))) (Path E output_dir)"
proof -
  let ?files = "rglob fsy (Path E input_dir) fmt"
  let ?out = "Path E output_dir"
  let ?w0 = "loop_start E w fsy input_dir output_dir fmt"
  let ?run = "process_directory E self w input_dir output_dir fmt so nfe tau den use"
  let ?loop = "process_files E self ?out fmt so nfe tau den use ?w0 0 ?files"
  have fs0: "fs ?w0 = fsy" by (simp add: loop_start_def fs_print)
  have wp0: "written_paths (trace ?w0) = written_paths (trace w)"
    by (simp add: loop_start_def trace_print trace_emit written_paths_append)
  have fsr: "fs (fst ?run) = fs (fst ?loop)"
    by (simp add: process_directory_unfold[OF mk] fs_print fs0)
  have wpr: "written_paths (trace (fst ?run)) = written_paths (trace (fst ?loop))"
    by (simp add: process_directory_unfold[OF mk] trace_print written_paths_append)
  have cr: "snd ?run = Inr (snd ?loop)"
    by (simp add: process_directory_unfold[OF mk])
  note l = process_files_all_succeeded[OF ok, of 0]
  show "snd ?run = Inr (length ?files)" using l cr by simp
  show "set (map fst (fs (fst ?run))) = set (map fst fsy) \<union> target ?out ` set ?files"
    using l[THEN conjunct2, THEN conjunct1] by (simp only: fsr fs0)
  show "written_paths (trace (fst ?run)) = written_paths (trace w) @ map (target ?out) ?files"
    using l[THEN conjunct2, THEN conjunct2] by (simp only: wpr wp0)
  show "wf_fs (fs w) \<Longrightarrow> wf_fs (fs (fst ?run))"
  proof -
    assume "wf_fs (fs w)"
    then have "wf_fs (fs ?w0)" using mkdir_wf[OF mk] fs0 by simp
    then show "wf_fs (fs (fst ?run))" using process_files_wf by (simp only: fsr)
  qed
  show "is_dir (fs (fst ?run)) ?out"
  proof -
    have "is_dir (fs ?w0) ?out" using mkdir_is_dir[OF mk] fs0 by simp
    then show ?thesis using process_files_keeps by (simp only: fsr)
  qed
qed

lemma batch_under:
  assumes mk: "mkdir E (fs w) (Path E output_dir) = Inr fsy"
    and ok: "list_all succeeded (outcomes E self (Path E output_dir) fmt so nfe tau den use
               (loop_start E w fsy input_dir output_dir fmt) (rglob fsy (Path E input_dir) fmt))"
  shows "set (under (fs (fst (process_directory E self w input_dir output_dir fmt so nfe tau den use)))
                (Path E output_dir))
           = set (under (fs w) (Path E output_dir))
             \<union> target (Path E output_dir) ` set (rglob fsy (Path E input_dir) fmt)"
proof -
  have "set (under fsy (Path E output_dir)) = set (under (fs w) (Path E output_dir))"
    using mkdir_under[OF mk] by simp
  then show ?thesis
    using batch_all_succeeded(2)[OF mk ok] target_under by (auto simp: set_under)
qed

lemma distinct_names_card:
  "distinct (map name files) \<Longrightarrow> card (target out ` set files) = length files"
  using distinct_card[of "map name files"] by (simp add: card_targets)

lemma collision_card:
  "\<not> distinct (map name files) \<Longrightarrow> card (set (map name files)) < length files"
  using card_distinct[of "map name files"] card_length[of "map name files"] by fastforce

lemma rglob_fnmatch:
  "f \<in> set (rglob fsy base fmt) \<Longrightarrow> fnmatch (name f) (''*.'' @ fmt)"
  by (auto simp: rglob_def split: if_splits)

lemma sf_write_twice:
  assumes "sf_write E fs0 p d sr f = (None, fs1)"
    and "sf_write E fs1 p d' sr' f' = (None, fs2)"
  shows "sf_write E fs0 p d' sr' f' = (None, fs2)"
proof -
  from assms(1) obtain b1 where b1: "fs1 = AList.update p (File b1) fs0"
    and pre: "p \<noteq> []" "is_dir fs0 (butlast p)" "\<not> is_dir fs0 p"
    by (auto simp: sf_write_def split: if_splits write_outcome.splits option.splits)
  from assms(2) obtain b2 where b2: "fs2 = AList.update p (File b2) fs1"
    and enc: "encode E d' sr' f' = Written b2"
    by (auto simp: sf_write_def split: if_splits write_outcome.splits option.splits)
  have "fs2 = AList.update p (File b2) fs0" using b1 b2 by simp
  with pre enc show ?thesis by (simp add: sf_write_def)
qed

lemma batch_fs:
  assumes mk: "mkdir E (fs w) (Path E output_dir) = Inr fsy"
  shows "fs (fst (process_directory E self w input_dir output_dir fmt so nfe tau den use))
           = fs (fst (process_files E self (Path E output_dir) fmt so nfe tau den use
                        (loop_start E w fsy input_dir output_dir fmt) 0 (rglob fsy (Path E input_dir) fmt)))"
  by (simp add: process_directory_unfold[OF mk] fs_print)

lemma batch_outputs_present:
  assumes mk: "mkdir E (fs w) (Path E output_dir) = Inr fsy"
    and ok: "list_all succeeded (outcomes E self (Path E output_dir) fmt so nfe tau den use
               (loop_start E w fsy input_dir output_dir fmt) (rglob fsy (Path E input_dir) fmt))"
    and f: "f \<in> set (rglob fsy (Path E input_dir) fmt)"
  shows "is_file (fs (fst (process_directory E self w input_dir output_dir fmt so nfe tau den use)))
           (target (Path E output_dir) f)"
proof -
  let ?files = "rglob fsy (Path E input_dir) fmt"
  let ?w0 = "loop_start E w fsy input_dir output_dir fmt"
  from f obtain i where i: "i < length ?files" "?files ! i = f"
    by (auto simp: in_set_conv_nth)
  have "succeeded (outcomes E self (Path E output_dir) fmt so nfe tau den use ?w0 ?files ! i)"
    using ok i(1) by (simp add: list_all_length outcomes_length)
  then have "outcomes E self (Path E output_dir) fmt so nfe tau den use ?w0 ?files ! i = None"
    by (simp add: succeeded_def)
  from process_files_written[OF i(1) this, of 0] i(2) show ?thesis
    by (simp only: batch_fs[OF mk] target_def)
qed


lemma mkdir_from_again:
  "mkdir_from E fsy pre cs = Inr fsy' \<Longrightarrow> mkdir_from E fsy' pre cs = Inr fsy'"
proof (induction cs arbitrary: fsy pre)
  case Nil
  then show ?case by simp
next
  case (Cons c cs)
  let ?q = "pre @ [c]"
  show ?case
  proof (cases "lookup fsy ?q")
    case None
    with Cons.prems have rec: "mkdir_from E (fsy @ [(?q, Dir)]) ?q cs = Inr fsy'" by simp
    from mkdir_from_added[OF rec] obtain ds where ds: "fsy' = (fsy @ [(?q, Dir)]) @ map (\<lambda>d. (d, Dir)) ds"
      by blast
    have "lookup (fsy @ [(?q, Dir)]) ?q = Some Dir"
      using None lookup_append_new[of ?q fsy Dir] by simp
    then have "lookup ((fsy @ [(?q, Dir)]) @ map (\<lambda>d. (d, Dir)) ds) ?q = Some Dir"
      by (rule lookup_append_old)
    then have "lookup fsy' ?q = Some Dir"
      by (simp only: ds)
    with Cons.IH[OF rec] show ?thesis by simp
  next
    case (Some en)
    show ?thesis
    proof (cases en)
      case (File b)
      with Some Cons.prems show ?thesis by simp
    next
      case Dir
      with Some Cons.prems have rec: "mkdir_from E fsy ?q cs = Inr fsy'" by simp
      from mkdir_from_added[OF rec] obtain ds where ds: "fsy' = fsy @ map (\<lambda>d. (d, Dir)) ds"
        by blast
      have "lookup fsy ?q = Some Dir" using Some Dir by simp
      then have "lookup (fsy @ map (\<lambda>d. (d, Dir)) ds) ?q = Some Dir"
        by (rule lookup_append_old)
      then have "lookup fsy' ?q = Some Dir"
        by (simp only: ds)
      with Cons.IH[OF rec] show ?thesis by simp
    qed
  qed
qed

lemma mkdir_again: "mkdir E fsy p = Inr fsy' \<Longrightarrow> mkdir E fsy' p = Inr fsy'"
  using mkdir_from_again by (simp add: mkdir_def)









lemma glob_match_plain:
  "plain p \<Longrightarrow> glob_match p n = (n = p)"
proof (induction p arbitrary: n)
  case Nil
  then show ?case by simp
next
  case (Cons c p)
  then have c: "c \<noteq> CHR ''*''" "c \<noteq> CHR ''?''" "c \<noteq> CHR ''[''" and p: "plain p"
    by (auto simp: plain_def)
  show ?case
    using c Cons.IH[OF p] by (cases n) auto
qed

lemma glob_match_star_plain:
  "plain p \<Longrightarrow> glob_match (CHR ''*'' # p) n = (\<exists>stem. n = stem @ p)"
proof (induction n)
  case Nil
  then show ?case by (auto simp: glob_match_plain)
next
  case (Cons d n)
  have "(\<exists>stem. d # n = stem @ p) = (d # n = p \<or> (\<exists>stem. n = stem @ p))"
  proof
    assume "\<exists>stem. d # n = stem @ p"
    then obtain stem where s: "d # n = stem @ p" by blast
    show "d # n = p \<or> (\<exists>stem. n = stem @ p)"
    proof (cases stem)
      case Nil
      with s show ?thesis by simp
    next
      case (Cons a stem')
      with s have "n = stem' @ p" by simp
      then show ?thesis by blast
    qed
  next
    assume "d # n = p \<or> (\<exists>stem. n = stem @ p)"
    then show "\<exists>stem. d # n = stem @ p"
    proof
      assume "d # n = p"
      then have "d # n = [] @ p" by simp
      then show ?thesis by blast
    next
      assume "\<exists>stem. n = stem @ p"
      then obtain stem where "n = stem @ p" by blast
      then have "d # n = (d # stem) @ p" by simp
      then show ?thesis by blast
    qed
  qed
  with Cons show ?case by (simp add: glob_match_plain)
qed

lemma fnmatch_plain_format:
  assumes "plain audio_format"
  shows "fnmatch n (''*.'' @ audio_format) = (\<exists>stem. n = stem @ ''.'' @ audio_format)"
proof -
  have "plain (''.'' @ audio_format)" using assms by (simp add: plain_def)
  from glob_match_star_plain[OF this] show ?thesis by (simp add: fnmatch_def)
qed

lemma verify_output_result:
  "fs (fst (verify_output E self w output_dir audio_format)) = fs w
   \<and> (\<not> exists (fs w) (Path E output_dir) \<longrightarrow>
        verify_output E self w output_dir audio_format
          = (print (''Output directory '' @ output_dir @ '' does not exist!'') w, 0))
   \<and> (is_dir (fs w) (Path E output_dir) \<longrightarrow>
        snd (verify_output E self w output_dir audio_format)
          = length (filter (\<lambda>p. is_under (Path E output_dir) p
                                 \<and> fnmatch (name p) (''*.'' @ audio_format)) (map fst (fs w))))
   \<and> (is_dir (fs w) (Path E output_dir)
        \<and> (\<forall>p\<in>set (rglob (fs w) (Path E output_dir) audio_format). \<not> is_dir (fs w) p) \<longrightarrow>
        snd (verify_output E self w output_dir audio_format)
          = length (matching_files (fs w) (Path E output_dir) audio_format))
   \<and> (\<not> is_dir (fs w) (Path E output_dir) \<longrightarrow> snd (verify_output E self w output_dir audio_format) = 0)"
proof -
  let ?out = "Path E output_dir"
  let ?P = "\<lambda>p. is_under ?out p \<and> fnmatch (name p) (''*.'' @ audio_format)"
  have c1: "fs (fst (verify_output E self w output_dir audio_format)) = fs w"
    by (simp add: verify_output_def Let_def fs_print)
  have c2: "\<not> exists (fs w) ?out \<longrightarrow>
        verify_output E self w output_dir audio_format
          = (print (''Output directory '' @ output_dir @ '' does not exist!'') w, 0)"
    by (simp add: verify_output_def Let_def)
  have cnt: "snd (verify_output E self w output_dir audio_format) = length (rglob (fs w) ?out audio_format)"
    by (simp add: verify_output_def Let_def rglob_def is_dir_def exists_def)
  have c3: "is_dir (fs w) ?out \<longrightarrow>
        snd (verify_output E self w output_dir audio_format) = length (filter ?P (map fst (fs w)))"
    by (simp add: cnt rglob_def)
  have c4: "is_dir (fs w) ?out \<and> (\<forall>p\<in>set (rglob (fs w) ?out audio_format). \<not> is_dir (fs w) p) \<longrightarrow>
        snd (verify_output E self w output_dir audio_format)
          = length (matching_files (fs w) ?out audio_format)"
  proof
    assume a: "is_dir (fs w) ?out \<and> (\<forall>p\<in>set (rglob (fs w) ?out audio_format). \<not> is_dir (fs w) p)"
    have "filter ?P (map fst (fs w)) = filter (\<lambda>p. is_file (fs w) p \<and> ?P p) (map fst (fs w))"
    proof (rule filter_cong[OF refl])
      fix p assume p: "p \<in> set (map fst (fs w))"
      show "?P p = (is_file (fs w) p \<and> ?P p)"
      proof (cases "?P p")
        case True
        then have "p \<in> set (rglob (fs w) ?out audio_format)" using a p by (simp add: rglob_def)
        with a have "\<not> is_dir (fs w) p" by blast
        moreover have "p \<noteq> []" using True is_under_nonempty by blast
        ultimately have "is_file (fs w) p" using key_is_file_or_dir[OF p] by blast
        with True show ?thesis by simp
      next
        case False
        then show ?thesis by blast
      qed
    qed
    then show "snd (verify_output E self w output_dir audio_format)
          = length (matching_files (fs w) ?out audio_format)"
      using a c3 by (simp add: matching_files_def)
  qed
  have c5: "\<not> is_dir (fs w) ?out \<longrightarrow> snd (verify_output E self w output_dir audio_format) = 0"
    by (simp add: cnt rglob_def)
  from c1 c2 c3 c4 c5 show ?thesis by blast
qed

subsection \<open>The small run, evaluated\<close>

lemmas path_defs = rglob_def is_dir_def is_file_def lookup_def is_under_def fnmatch_def name_def
  joinpath_def exists_def
lemmas run_defs = try_file_def process_file_def denoise_and_enhance_def torchaudio_load_def sf_write_def
  emit_def print_def loop_start_def mean_dim0_def lower_def lower_char_def upper_def upper_char_def
  digit_char_def Let_def

lemma demo_Path: "Path demo_env s = [s]"
  by (simp add: demo_env_def)




lemma demo_load:
  "torchaudio_load demo_env (fs demo_world) [''in'', ''a.wav''] = Inr ([[1, 3], [3, 5]], 16000)"
  by (simp add: torchaudio_load_def demo_env_def demo_world_def lookup_def)

lemma demo_mean: "mean_dim0 [[1, 3], [3, 5]] = [2, 4]"
  by (simp add: mean_dim0_def)

lemma demo_denoise:
  "denoise demo_env (mean_dim0 [[1, 3], [3, 5]]) 16000 (device demo_self) = Inr ([2, 4], 16000)"
  by (simp add: demo_env_def demo_mean)

lemma demo_enhance:
  "enhance demo_env (mean_dim0 [[1, 3], [3, 5]]) 16000 (device demo_self) (py_int (IntNum 64))
     (lower ''Midpoint'') (if True then 9 / 10 else 1 / 10) (7 / 10) = Inr ([9 / 5, 18 / 5], 44100)"
  by (simp add: demo_env_def demo_mean)

lemmas demo_defs = demo_env_def demo_self_def demo_world_def demo_fs1_def demo_world1_def
  twin_world_def twin_fs1_def good_world_def good_fs1_def
  trio_world_def trio_fs1_def

lemma twin_mkdir: "mkdir demo_env (fs twin_world) (Path demo_env ''out'') = Inr twin_fs1"
  by (simp add: mkdir_def demo_defs lookup_def)

lemma twin_files:
  "rglob twin_fs1 (Path demo_env ''in'') ''wav'' = [[''in'', ''a'', ''x.wav''], [''in'', ''b'', ''x.wav'']]"
  by (simp add: demo_defs path_defs)

lemma twin_outcomes:
  "outcomes demo_env demo_self (Path demo_env ''out'') ''wav'' ''Midpoint'' (IntNum 64) (7 / 10) True True
     (loop_start demo_env twin_world twin_fs1 ''in'' ''out'' ''wav'')
     (rglob twin_fs1 (Path demo_env ''in'') ''wav'') = [None, None]"
  unfolding twin_files
  by (simp add: demo_defs path_defs run_defs str_nat.simps)

lemma twin_result:
  "snd (process_directory demo_env demo_self twin_world ''in'' ''out'' ''wav'' ''Midpoint''
          (IntNum 64) (7 / 10) True True) = Inr 2"
  using process_files_count[of demo_env demo_self "Path demo_env ''out''" "''wav''" "''Midpoint''"
          "IntNum 64" "7 / 10" True True "loop_start demo_env twin_world twin_fs1 ''in'' ''out'' ''wav''" 0
          "rglob twin_fs1 (Path demo_env ''in'') ''wav''"]
  by (simp add: process_directory_unfold[OF twin_mkdir] twin_outcomes succeeded_def) (simp add: twin_files)

lemma twin_final_fs:
  "fs (fst (process_directory demo_env demo_self twin_world ''in'' ''out'' ''wav'' ''Midpoint''
          (IntNum 64) (7 / 10) True True)) = twin_fs1 @ [([''out'', ''x.wav''], File ''silence'')]"
  unfolding batch_fs[OF twin_mkdir] twin_files
  by (simp add: demo_defs path_defs run_defs str_nat.simps)

lemma good_mkdir: "mkdir demo_env (fs good_world) (Path demo_env ''out'') = Inr good_fs1"
  by (simp add: mkdir_def demo_defs lookup_def)

lemma good_files:
  "rglob good_fs1 (Path demo_env ''in'') ''wav'' = [[''in'', ''a.wav''], [''in'', ''sub'', ''c.wav'']]"
  by (simp add: demo_defs path_defs)

lemma good_outcomes:
  "outcomes demo_env demo_self (Path demo_env ''out'') ''wav'' ''Midpoint'' (IntNum 64) (7 / 10) True True
     (loop_start demo_env good_world good_fs1 ''in'' ''out'' ''wav'')
     (rglob good_fs1 (Path demo_env ''in'') ''wav'') = [None, None]"
  unfolding good_files
  by (simp add: demo_defs path_defs run_defs str_nat.simps)

lemma twin_ok:
  "list_all succeeded
     (outcomes demo_env demo_self (Path demo_env ''out'') ''wav'' ''Midpoint'' (IntNum 64) (7 / 10) True True
        (loop_start demo_env twin_world twin_fs1 ''in'' ''out'' ''wav'')
        (rglob twin_fs1 (Path demo_env ''in'') ''wav''))"
  by (simp add: twin_outcomes succeeded_def)

lemma good_ok:
  "list_all succeeded
     (outcomes demo_env demo_self (Path demo_env ''out'') ''wav'' ''Midpoint'' (IntNum 64) (7 / 10) True True
        (loop_start demo_env good_world good_fs1 ''in'' ''out'' ''wav'')
        (rglob good_fs1 (Path demo_env ''in'') ''wav''))"
  by (simp add: good_outcomes succeeded_def)

lemma twin_wf: "wf_fs (fs twin_world)"
  by (simp add: wf_fs_def demo_defs)

lemma twin_fresh: "under (fs twin_world) (Path demo_env ''out'') = []"
  by (simp add: under_def demo_defs path_defs)

lemma good_wf: "wf_fs (fs good_world)"
  by (simp add: wf_fs_def demo_defs)

lemma good_fresh: "under (fs good_world) (Path demo_env ''out'') = []"
  by (simp add: under_def demo_defs path_defs)

lemma good_names: "distinct (map name (rglob good_fs1 (Path demo_env ''in'') ''wav''))"
  by (simp add: good_files name_def)

lemma twin_names: "\<not> distinct (map name (rglob twin_fs1 (Path demo_env ''in'') ''wav''))"
  by (simp add: twin_files name_def)







section \<open>The claims\<close>




text \<open>
  C3. The single-file processor passes to the enhance operation the solver in lower case,
  the iteration budget as an integer, the blend weight 0.9 when \<open>denoising\<close> is true and
  0.1 when it is false, and the time parameter as it came: every call of the enhance
  operation that \<open>denoise_and_enhance\<close> records carries exactly these values, and when
  loading and denoising return, that call is made and its result is the one returned.
\<close>

theorem enhance_parameters_normalized:
  assumes "denoise_and_enhance E self w audio_path solver nfe tau denoising = (w', r)"
  shows "(\<forall>d sr dev n so l t.
            Enhance d sr dev n so l t \<in> set (drop (length (trace w)) (trace w')) \<longrightarrow>
              n = py_int nfe \<and> so = lower solver \<and> l = (if denoising then 9 / 10 else 1 / 10) \<and> t = tau)
     \<and> (\<forall>chans sr wd sr_d.
            torchaudio_load E (fs w) audio_path = Inr (chans, sr) \<longrightarrow>
            denoise E (mean_dim0 chans) sr (device self) = Inr (wd, sr_d) \<longrightarrow>
              last (trace w') = Enhance (mean_dim0 chans) sr (device self) (py_int nfe) (lower solver)
                                  (if denoising then 9 / 10 else 1 / 10) tau
              \<and> r = (case enhance E (mean_dim0 chans) sr (device self) (py_int nfe) (lower solver)
                              (if denoising then 9 / 10 else 1 / 10) tau of
                        Inl e \<Rightarrow> Inl e
                      | Inr (we, sr_e) \<Rightarrow> Inr ((sr_e, wd), (sr_e, we))))"
proof -
  have t: "trace w' = trace (fst (denoise_and_enhance E self w audio_path solver nfe tau denoising))"
    and r: "r = snd (denoise_and_enhance E self w audio_path solver nfe tau denoising)"
    using assms by simp_all
  show ?thesis
    unfolding t r denoise_and_enhance_trace denoise_and_enhance_result
    by (auto split: sum.splits prod.splits)
qed

theorem enhance_parameters_normalized_witness:
  "last (trace (fst (denoise_and_enhance demo_env demo_self demo_world [''in'', ''a.wav'']
                       ''Midpoint'' (FloatNum (129 / 2)) (7 / 10) False)))
     = Enhance [2, 4] 16000 ''cpu'' 64 ''midpoint'' (1 / 10) (7 / 10)
   \<and> snd (denoise_and_enhance demo_env demo_self demo_world [''in'', ''a.wav'']
                       ''Midpoint'' (FloatNum (129 / 2)) (7 / 10) False)
     = Inr ((44100, [2, 4]), (44100, [1 / 5, 2 / 5]))"
  using enhance_parameters_normalized[where E = demo_env and self = demo_self and w = demo_world
          and audio_path = "[''in'', ''a.wav'']" and solver = "''Midpoint''"
          and nfe = "FloatNum (129 / 2)" and tau = "7 / 10" and denoising = False,
          OF surjective_pairing, THEN conjunct2, rule_format, OF demo_load demo_denoise]
  by (simp add: demo_mean demo_self_def demo_env_def lower_def lower_char_def)

text \<open>
  C4, as the code has it. For a loaded file the calls of \<open>denoise_and_enhance\<close> are, in
  this order: the load, one call of the denoise operation and, when that call returns, one
  call of the enhance operation, both on the same buffer, the mean over the channels of
  what was loaded (and not the denoised wave). For a tensor of \<open>n\<close> frames the mean has
  \<open>n\<close> samples, each the sum of the channels' samples at that frame divided by the number
  of channels. The function returns the two waves when both calls return, and the
  exception of the call that raises otherwise: when the denoise call raises, the function
  ends with that exception right after it, and the enhance operation is not called.
\<close>

theorem mono_downmix_shared_by_both_passes:
  assumes "torchaudio_load E (fs w) audio_path = Inr (chans, sr)"
    and "chans \<noteq> []" and "\<forall>c\<in>set chans. length c = n"
  shows "trace (fst (denoise_and_enhance E self w audio_path solver nfe tau denoising)) =
           trace w @ [Load audio_path, Denoise (mean_dim0 chans) sr (device self)]
             @ (case denoise E (mean_dim0 chans) sr (device self) of
                  Inl e \<Rightarrow> []
                | Inr r \<Rightarrow> [Enhance (mean_dim0 chans) sr (device self) (py_int nfe) (lower solver)
                               (if denoising then 9 / 10 else 1 / 10) tau])
     \<and> length (mean_dim0 chans) = n
     \<and> (\<forall>t<n. mean_dim0 chans ! t = (\<Sum>c\<leftarrow>chans. c ! t) / real (length chans))
     \<and> snd (denoise_and_enhance E self w audio_path solver nfe tau denoising) =
           (case denoise E (mean_dim0 chans) sr (device self) of
              Inl e \<Rightarrow> Inl e
            | Inr (wav_denoised, sr_d) \<Rightarrow>
                (case enhance E (mean_dim0 chans) sr (device self) (py_int nfe) (lower solver)
                        (if denoising then 9 / 10 else 1 / 10) tau of
                   Inl e \<Rightarrow> Inl e
                 | Inr (wav_enhanced, sr_e) \<Rightarrow> Inr ((sr_e, wav_denoised), (sr_e, wav_enhanced))))
     \<and> (\<forall>e. denoise E (mean_dim0 chans) sr (device self) = Inl e \<longrightarrow>
           denoise_and_enhance E self w audio_path solver nfe tau denoising
             = (w\<lparr>trace := trace w @ [Load audio_path, Denoise (mean_dim0 chans) sr (device self)]\<rparr>,
                Inl e))"
proof -
  let ?m = "mean_dim0 chans"
  let ?dae = "denoise_and_enhance E self w audio_path solver nfe tau denoising"
  have tr: "trace (fst ?dae) =
           trace w @ [Load audio_path, Denoise ?m sr (device self)]
             @ (case denoise E ?m sr (device self) of
                  Inl e \<Rightarrow> []
                | Inr r \<Rightarrow> [Enhance ?m sr (device self) (py_int nfe) (lower solver)
                               (if denoising then 9 / 10 else 1 / 10) tau])"
    using assms(1) by (simp add: denoise_and_enhance_trace)
  have res: "snd ?dae =
           (case denoise E ?m sr (device self) of
              Inl e \<Rightarrow> Inl e
            | Inr (wav_denoised, sr_d) \<Rightarrow>
                (case enhance E ?m sr (device self) (py_int nfe) (lower solver)
                        (if denoising then 9 / 10 else 1 / 10) tau of
                   Inl e \<Rightarrow> Inl e
                 | Inr (wav_enhanced, sr_e) \<Rightarrow> Inr ((sr_e, wav_denoised), (sr_e, wav_enhanced))))"
    using assms(1) by (simp add: denoise_and_enhance_result)
  have raise: "\<forall>e. denoise E ?m sr (device self) = Inl e \<longrightarrow>
           ?dae = (w\<lparr>trace := trace w @ [Load audio_path, Denoise ?m sr (device self)]\<rparr>, Inl e)"
    using assms(1) by (simp add: denoise_and_enhance_def Let_def emit_def)
  from tr res raise mean_dim0_nth[OF assms(2,3)] show ?thesis by blast
qed

theorem mono_downmix_shared_by_both_passes_witness:
  "trace (fst (denoise_and_enhance demo_env demo_self demo_world [''in'', ''a.wav'']
                 ''Midpoint'' (IntNum 64) (7 / 10) True))
     = [Load [''in'', ''a.wav''], Denoise [2, 4] 16000 ''cpu'',
        Enhance [2, 4] 16000 ''cpu'' 64 ''midpoint'' (9 / 10) (7 / 10)]
   \<and> snd (denoise_and_enhance demo_env demo_self demo_world [''in'', ''a.wav'']
            ''Midpoint'' (IntNum 64) (7 / 10) True)
       = Inr ((44100, [2, 4]), (44100, [9 / 5, 18 / 5]))
   \<and> length (mean_dim0 [[1, 3], [3, 5]]) = 2
   \<and> mean_dim0 [[1, 3], [3, 5]] ! 0 = (1 + 3) / 2
   \<and> mean_dim0 [[1, 3], [3, 5]] ! 1 = (3 + 5) / 2
   \<and> denoise_and_enhance failing_env demo_self demo_world [''in'', ''a.wav''] ''Midpoint''
         (IntNum 64) (7 / 10) True
       = (demo_world\<lparr>trace := [Load [''in'', ''a.wav''], Denoise [2, 4] 16000 ''cpu'']\<rparr>,
          Inl (Exception ''CUDA out of memory''))"
proof -
  have ne: "[[1, 3], [3, 5 :: real]] \<noteq> []" by simp
  have rect: "\<forall>c\<in>set [[1, 3], [3, 5 :: real]]. length c = 2" by simp
  note th = mono_downmix_shared_by_both_passes[OF demo_load ne rect,
      where self = demo_self and solver = "''Midpoint''" and nfe = "IntNum 64" and tau = "7 / 10"
        and denoising = True]
  have a: "trace (fst (denoise_and_enhance demo_env demo_self demo_world [''in'', ''a.wav'']
                 ''Midpoint'' (IntNum 64) (7 / 10) True))
     = [Load [''in'', ''a.wav''], Denoise [2, 4] 16000 ''cpu'',
        Enhance [2, 4] 16000 ''cpu'' 64 ''midpoint'' (9 / 10) (7 / 10)]"
    using th by (simp add: demo_mean demo_self_def demo_env_def demo_world_def lower_def lower_char_def)
  have r: "snd (denoise_and_enhance demo_env demo_self demo_world [''in'', ''a.wav'']
            ''Midpoint'' (IntNum 64) (7 / 10) True)
       = Inr ((44100, [2, 4]), (44100, [9 / 5, 18 / 5]))"
    using th by (simp add: demo_mean demo_self_def demo_env_def lower_def lower_char_def)
  have b: "length (mean_dim0 [[1, 3], [3, 5]]) = 2" using th by blast
  have c: "mean_dim0 [[1, 3], [3, 5]] ! 0 = (1 + 3) / 2"
    using th[THEN conjunct2, THEN conjunct2, THEN conjunct1, rule_format, of 0] by simp
  have d: "mean_dim0 [[1, 3], [3, 5]] ! 1 = (3 + 5) / 2"
    using th[THEN conjunct2, THEN conjunct2, THEN conjunct1, rule_format, of 1] by simp
  have fl: "torchaudio_load failing_env (fs demo_world) [''in'', ''a.wav''] = Inr ([[1, 3], [3, 5]], 16000)"
    by (simp add: torchaudio_load_def failing_env_def demo_env_def demo_world_def lookup_def)
  have fd: "denoise failing_env (mean_dim0 [[1, 3], [3, 5]]) 16000 (device demo_self)
              = Inl (Exception ''CUDA out of memory'')"
    by (simp add: failing_env_def)
  have tr: "trace demo_world = []" by (simp add: demo_world_def)
  have e: "denoise_and_enhance failing_env demo_self demo_world [''in'', ''a.wav''] ''Midpoint''
         (IntNum 64) (7 / 10) True
       = (demo_world\<lparr>trace := [Load [''in'', ''a.wav''], Denoise [2, 4] 16000 ''cpu'']\<rparr>,
          Inl (Exception ''CUDA out of memory''))"
    using mono_downmix_shared_by_both_passes[OF fl ne rect,
        where self = demo_self and solver = "''Midpoint''" and nfe = "IntNum 64" and tau = "7 / 10"
          and denoising = True, THEN conjunct2, THEN conjunct2, THEN conjunct2, THEN conjunct2,
        rule_format, OF fd] tr
    by (simp add: demo_mean demo_self_def)
  from a r b c d e show ?thesis by blast
qed

text \<open>
  C4 as stated, "denoise and enhance are each invoked exactly once for every loaded
  file", fails where the denoise call raises: the file is loaded, the denoise operation is
  called on the mean, and no call of the enhance operation follows.
\<close>

theorem enhance_skipped_when_denoise_raises_counterexample:
  "torchaudio_load failing_env (fs demo_world) [''in'', ''a.wav''] = Inr ([[1, 3], [3, 5]], 16000)
   \<and> denoise_and_enhance failing_env demo_self demo_world [''in'', ''a.wav''] ''Midpoint''
         (IntNum 64) (7 / 10) True
       = (\<lparr>fs = fs demo_world,
            trace = [Load [''in'', ''a.wav''], Denoise [2, 4] 16000 ''cpu'']\<rparr>,
          Inl (Exception ''CUDA out of memory''))"
  by (simp add: failing_env_def demo_env_def demo_world_def demo_self_def denoise_and_enhance_def
        torchaudio_load_def lookup_def mean_dim0_def emit_def Let_def)

text \<open>
  C5. A file that goes through (the round of the loop adds one to the count) is written
  to the output directory under its base name: that path holds a file afterwards, it is
  the target of the call of \<^verbatim>\<open>sf.write\<close>, and no other path of the file system
  changes. In particular, for a file found at \<open>inp @ rel\<close> with \<open>rel\<close> of two or more
  components, the target is \<open>output_path @ [last rel]\<close>, and \<open>output_path @ rel\<close> is
  left as it was.
\<close>

theorem output_written_under_base_name:
  assumes "process_file E self output_path audio_format solver nfe tau denoising use_enhanced
             w c audio_file = (w', Suc c)"
  shows "(\<exists>b. fs w' = AList.update (joinpath output_path (name audio_file)) (File b) (fs w))
     \<and> is_file (fs w') (joinpath output_path (name audio_file))
     \<and> (\<forall>q. q \<noteq> joinpath output_path (name audio_file) \<longrightarrow> lookup (fs w') q = lookup (fs w) q)
     \<and> (\<exists>arr sr. last (trace w') = SfWrite (joinpath output_path (name audio_file)) arr sr
                                      (lower audio_format))
     \<and> (\<forall>inp rel. audio_file = inp @ rel \<and> 1 < length rel \<longrightarrow>
           joinpath output_path (name audio_file) = output_path @ [last rel]
           \<and> lookup (fs w') (output_path @ rel) = lookup (fs w) (output_path @ rel))"
proof -
  let ?t = "joinpath output_path (name audio_file)"
  let ?tf = "try_file E self output_path audio_format solver nfe tau denoising use_enhanced w audio_file"
  have "snd (process_file E self output_path audio_format solver nfe tau denoising use_enhanced
               w c audio_file) = Suc c"
    by (simp only: assms snd_conv)
  then have "(if succeeded (snd ?tf) then c + 1 else c) = Suc c"
    by (simp only: process_file_count)
  then have "succeeded (snd ?tf)"
    by (cases "succeeded (snd ?tf)") simp_all
  then have ok: "snd ?tf = None"
    by (simp add: succeeded_def)
  have "fst (process_file E self output_path audio_format solver nfe tau denoising use_enhanced
               w c audio_file) = w'"
    by (simp only: assms fst_conv)
  then have tf: "?tf = (w', None)"
    using ok by (cases ?tf) (simp add: process_file_world)
  from try_file_fs[OF tf] obtain b where b: "fs w' = AList.update ?t (File b) (fs w)" by auto
  have c1: "\<exists>b. fs w' = AList.update ?t (File b) (fs w)" using b by blast
  have c2: "is_file (fs w') ?t" using b by (simp add: is_file_update_same joinpath_def)
  have c3: "\<forall>q. q \<noteq> ?t \<longrightarrow> lookup (fs w') q = lookup (fs w) q"
    using b by (simp add: lookup_update lookup_Nil)
  have c4: "\<exists>arr sr. last (trace w') = SfWrite ?t arr sr (lower audio_format)"
  proof (cases "denoise_and_enhance E self w audio_file solver nfe tau denoising")
    case (Pair w1 res)
    show ?thesis
    proof (cases res)
      case (Inl e)
      with Pair tf show ?thesis by (simp add: try_file_def)
    next
      case (Inr pr)
      obtain d1 e1 where pr: "pr = (d1, e1)" by (cases pr)
      obtain sr arr where sel: "(if use_enhanced then e1 else d1) = (sr, arr)"
        by (cases "if use_enhanced then e1 else d1")
      have "trace (fst ?tf) = trace w1 @ [SfWrite ?t arr sr (lower audio_format)]"
        using Pair Inr pr sel by (simp add: try_file_def Let_def trace_emit split: prod.splits)
      with tf show ?thesis by simp
    qed
  qed
  have c5: "\<forall>inp rel. audio_file = inp @ rel \<and> 1 < length rel \<longrightarrow>
           ?t = output_path @ [last rel]
           \<and> lookup (fs w') (output_path @ rel) = lookup (fs w) (output_path @ rel)"
  proof (intro allI impI)
    fix inp rel
    assume a: "audio_file = inp @ rel \<and> 1 < length rel"
    then have ne: "rel \<noteq> []" by auto
    with a have t: "?t = output_path @ [last rel]" by (simp add: joinpath_def name_def)
    from a have "rel \<noteq> [last rel]" by (cases rel) auto
    then have "output_path @ rel \<noteq> ?t" using t by simp
    with c3 t show "?t = output_path @ [last rel]
           \<and> lookup (fs w') (output_path @ rel) = lookup (fs w) (output_path @ rel)" by simp
  qed
  from c1 c2 c3 c4 c5 show ?thesis by blast
qed

theorem output_written_under_base_name_witness:
  "snd (process_file demo_env demo_self [''out''] ''wav'' ''Midpoint'' (IntNum 64) (7 / 10) True True
          demo_world1 0 [''in'', ''sub'', ''c.wav'']) = Suc 0
   \<and> is_file (fs (fst (process_file demo_env demo_self [''out''] ''wav'' ''Midpoint'' (IntNum 64)
                         (7 / 10) True True demo_world1 0 [''in'', ''sub'', ''c.wav''])))
         [''out'', ''c.wav'']
   \<and> lookup (fs (fst (process_file demo_env demo_self [''out''] ''wav'' ''Midpoint'' (IntNum 64)
                         (7 / 10) True True demo_world1 0 [''in'', ''sub'', ''c.wav''])))
         [''out'', ''sub'', ''c.wav''] = None"
proof -
  let ?run = "process_file demo_env demo_self [''out''] ''wav'' ''Midpoint'' (IntNum 64) (7 / 10)
                True True demo_world1 0 [''in'', ''sub'', ''c.wav'']"
  have cnt: "snd ?run = Suc 0"
    by (simp add: demo_world1_def demo_fs1_def demo_world_def demo_env_def demo_self_def
          path_defs run_defs)
  then have run: "?run = (fst ?run, Suc 0)"
    by (metis prod.collapse)
  note th = output_written_under_base_name[OF run]
  have a: "is_file (fs (fst ?run)) [''out'', ''c.wav'']"
    using th by (simp add: joinpath_def name_def)
  have "lookup (fs (fst ?run)) ([''out''] @ [''sub'', ''c.wav''])
          = lookup (fs demo_world1) ([''out''] @ [''sub'', ''c.wav''])"
    using th[THEN conjunct2, THEN conjunct2, THEN conjunct2, THEN conjunct2, rule_format,
             of "[''in'']" "[''sub'', ''c.wav'']"] by simp
  then have b: "lookup (fs (fst ?run)) [''out'', ''sub'', ''c.wav''] = None"
    by (simp add: demo_world1_def demo_fs1_def demo_world_def lookup_def)
  from cnt a b show ?thesis by blast
qed

text \<open>
  C9. Both results of \<open>denoise_and_enhance\<close> carry the sample rate that the enhance
  operation returned; the rate that the denoise operation returned is dropped. The file
  written in "denoised only" mode (\<open>use_enhanced\<close> false) is therefore the denoised wave
  at the enhance operation's rate.
\<close>

theorem both_results_tagged_with_enhance_rate:
  assumes "torchaudio_load E (fs w) audio_file = Inr (chans, sr)"
    and "denoise E (mean_dim0 chans) sr (device self) = Inr (wav_denoised, sr_d)"
    and "enhance E (mean_dim0 chans) sr (device self) (py_int nfe) (lower solver)
           (if denoising then 9 / 10 else 1 / 10) tau = Inr (wav_enhanced, sr_e)"
  shows "snd (denoise_and_enhance E self w audio_file solver nfe tau denoising) =
           Inr ((sr_e, wav_denoised), (sr_e, wav_enhanced))
     \<and> SfWrite (joinpath output_path (name audio_file)) wav_denoised sr_e (lower audio_format)
         \<in> set (trace (fst (try_file E self output_path audio_format solver nfe tau denoising False
                                w audio_file)))
     \<and> SfWrite (joinpath output_path (name audio_file)) wav_enhanced sr_e (lower audio_format)
         \<in> set (trace (fst (try_file E self output_path audio_format solver nfe tau denoising True
                                w audio_file)))"
proof -
  have res: "snd (denoise_and_enhance E self w audio_file solver nfe tau denoising) =
           Inr ((sr_e, wav_denoised), (sr_e, wav_enhanced))"
    using assms by (simp add: denoise_and_enhance_result)
  obtain w1 where dae: "denoise_and_enhance E self w audio_file solver nfe tau denoising =
      (w1, Inr ((sr_e, wav_denoised), (sr_e, wav_enhanced)))"
    using res by (cases "denoise_and_enhance E self w audio_file solver nfe tau denoising") simp
  have "\<And>use. trace (fst (try_file E self output_path audio_format solver nfe tau denoising use w audio_file))
      = trace w1 @ [SfWrite (joinpath output_path (name audio_file)) (if use then wav_enhanced else wav_denoised)
           sr_e (lower audio_format)]"
    using dae by (simp add: try_file_def Let_def trace_emit split: prod.splits)
  from this[of False] this[of True] res show ?thesis by simp
qed

theorem both_results_tagged_with_enhance_rate_witness:
  "denoise demo_env (mean_dim0 [[1, 3], [3, 5]]) 16000 (device demo_self) = Inr ([2, 4], 16000)
   \<and> snd (denoise_and_enhance demo_env demo_self demo_world [''in'', ''a.wav'']
            ''Midpoint'' (IntNum 64) (7 / 10) True)
       = Inr ((44100, [2, 4]), (44100, [9 / 5, 18 / 5]))
   \<and> SfWrite [''out'', ''a.wav''] [2, 4] 44100 ''wav''
       \<in> set (trace (fst (try_file demo_env demo_self [''out''] ''WAV'' ''Midpoint'' (IntNum 64)
                              (7 / 10) True False demo_world [''in'', ''a.wav''])))"
  using both_results_tagged_with_enhance_rate[OF demo_load demo_denoise demo_enhance,
          where output_path = "[''out'']" and audio_format = "''WAV''"] demo_denoise
  by (simp add: joinpath_def name_def lower_def lower_char_def)

text \<open>
  C6. When no regular file under the input directory matches the extension, and the
  output directory could be made, \<open>process_directory\<close> returns 0 and raises nothing, no
  call of \<^verbatim>\<open>sf.write\<close> is made, and the file system at the end is the one
  \<^verbatim>\<open>mkdir\<close> left: the one before the run plus, at most, the output directory and its
  missing parents, and making the directory once more changes nothing. When the
  enumeration is empty, the run ends at once: after
  \<^verbatim>\<open>mkdir\<close> it only prints the two lines "Found 0 ..." and "No audio files found!".
\<close>

theorem no_matching_file_returns_zero:
  assumes mk: "mkdir E (fs w) (Path E output_dir) = Inr fsy"
    and none: "\<forall>p\<in>set (rglob fsy (Path E input_dir) audio_format). \<not> is_file fsy p"
  shows "snd (process_directory E self w input_dir output_dir audio_format solver nfe tau denoising
                use_enhanced) = Inr 0
     \<and> fs (fst (process_directory E self w input_dir output_dir audio_format solver nfe tau denoising
                   use_enhanced)) = fsy
     \<and> (\<exists>ds. fsy = fs w @ map (\<lambda>d. (d, Dir)) ds
             \<and> (\<forall>d\<in>set ds. \<exists>k. 0 < k \<and> k \<le> length (Path E output_dir) \<and> d = take k (Path E output_dir)))
     \<and> mkdir E fsy (Path E output_dir) = Inr fsy
     \<and> written_paths (trace (fst (process_directory E self w input_dir output_dir audio_format solver
                                     nfe tau denoising use_enhanced))) = written_paths (trace w)
     \<and> (rglob fsy (Path E input_dir) audio_format = [] \<longrightarrow>
          trace (fst (process_directory E self w input_dir output_dir audio_format solver nfe tau
                        denoising use_enhanced))
            = trace w @ [Mkdir (Path E output_dir),
                         Print (''Found 0 '' @ upper audio_format @ '' files to process''),
                         Print ''No audio files found!''])"
proof -
  let ?files = "rglob fsy (Path E input_dir) audio_format"
  let ?w0 = "loop_start E w fsy input_dir output_dir audio_format"
  let ?run = "process_directory E self w input_dir output_dir audio_format solver nfe tau denoising
                use_enhanced"
  have fs0: "fs ?w0 = fsy" by (simp add: loop_start_def fs_print)
  have wp0: "written_paths (trace ?w0) = written_paths (trace w)"
    by (simp add: loop_start_def trace_print trace_emit written_paths_append)
  have c3: "\<exists>ds. fsy = fs w @ map (\<lambda>d. (d, Dir)) ds
             \<and> (\<forall>d\<in>set ds. \<exists>k. 0 < k \<and> k \<le> length (Path E output_dir) \<and> d = take k (Path E output_dir))"
    using mkdir_added[OF mk] by blast
  have c4: "mkdir E fsy (Path E output_dir) = Inr fsy"
    using mkdir_again[OF mk] .
  show ?thesis
  proof (cases "?files = []")
    case True
    have run: "?run = (print ''No audio files found!'' ?w0, Inr 0)"
      using True by (simp add: process_directory_unfold[OF mk])
    have "trace (fst ?run) = trace w @ [Mkdir (Path E output_dir),
                         Print (''Found 0 '' @ upper audio_format @ '' files to process''),
                         Print ''No audio files found!'']"
      using True by (simp add: run loop_start_def trace_print trace_emit str_nat_0)
    moreover have "snd ?run = Inr 0" "fs (fst ?run) = fsy"
      "written_paths (trace (fst ?run)) = written_paths (trace w)"
      using fs0 wp0 by (simp_all add: run fs_print trace_print written_paths_append)
    ultimately show ?thesis using c3 c4 by blast
  next
    case False
    let ?loop = "process_files E self (Path E output_dir) audio_format solver nfe tau denoising
                   use_enhanced ?w0 0 ?files"
    have "\<forall>f\<in>set ?files. \<not> is_file (fs ?w0) f" using none fs0 by simp
    from process_files_no_files[OF this, of E self "Path E output_dir" audio_format solver nfe tau
        denoising use_enhanced 0]
    have l: "snd ?loop = 0" "fs (fst ?loop) = fsy"
      "written_paths (trace (fst ?loop)) = written_paths (trace w)"
      using fs0 wp0 by simp_all
    have "snd ?run = Inr 0" "fs (fst ?run) = fsy"
      "written_paths (trace (fst ?run)) = written_paths (trace w)"
      using False l by (simp_all add: process_directory_unfold[OF mk] fs_print trace_print written_paths_append)
    with c3 c4 False show ?thesis by blast
  qed
qed

theorem no_matching_file_returns_zero_witness:
  "snd (process_directory demo_env demo_self quiet_world ''in'' ''out'' ''wav'' ''Midpoint''
          (IntNum 64) (7 / 10) True True) = Inr 0
   \<and> fs (fst (process_directory demo_env demo_self quiet_world ''in'' ''out'' ''wav'' ''Midpoint''
                 (IntNum 64) (7 / 10) True True)) = fs quiet_world @ [([''out''], Dir)]
   \<and> trace (fst (process_directory demo_env demo_self quiet_world ''in'' ''out'' ''wav'' ''Midpoint''
                    (IntNum 64) (7 / 10) True True))
       = [Mkdir [''out''], Print ''Found 0 WAV files to process'', Print ''No audio files found!'']"
proof -
  have mk: "mkdir demo_env (fs quiet_world) (Path demo_env ''out'') = Inr (fs quiet_world @ [([''out''], Dir)])"
    by (simp add: mkdir_def quiet_world_def demo_env_def lookup_def)
  have fl: "rglob (fs quiet_world @ [([''out''], Dir)]) (Path demo_env ''in'') ''wav'' = []"
    by (simp add: quiet_world_def demo_env_def path_defs)
  have none: "\<forall>p\<in>set (rglob (fs quiet_world @ [([''out''], Dir)]) (Path demo_env ''in'') ''wav'').
                \<not> is_file (fs quiet_world @ [([''out''], Dir)]) p"
    by (simp add: fl)
  note th = no_matching_file_returns_zero[OF mk none, where self = demo_self and solver = "''Midpoint''"
      and nfe = "IntNum 64" and tau = "7 / 10" and denoising = True and use_enhanced = True]
  have tr: "trace quiet_world = []" by (simp add: quiet_world_def)
  show ?thesis
    using th fl tr by (simp add: demo_env_def upper_def upper_char_def)
qed

text \<open>
  C8. \<open>verify_output\<close> is to count the files under the directory that match the
  extension. It does not: \<^verbatim>\<open>rglob\<close> yields a directory whose name matches as well, and
  nothing in \<open>verify_output\<close> keeps directories out. Under \<^verbatim>\<open>out\<close> there is the
  directory \<^verbatim>\<open>take1.wav\<close>, with a text file in it, and no file that matches
  \<^verbatim>\<open>*.wav\<close>; \<open>verify_output\<close> prints "Found 1 processed WAV files in output
  directory" and returns 1.
\<close>

theorem verify_output_counts_a_directory:
  "matching_files (fs odd_world) (Path demo_env ''out'') ''wav'' = []
   \<and> is_dir (fs odd_world) [''out'', ''take1.wav'']
   \<and> verify_output demo_env demo_self odd_world ''out'' ''wav''
       = (print ''Found 1 processed WAV files in output directory'' odd_world, 1)"
  by (simp add: verify_output_def matching_files_def odd_world_def demo_env_def path_defs Let_def
        str_nat.simps digit_char_def upper_def upper_char_def)

text \<open>
  C2, as the code has it. When the output directory could be made, every file found goes
  through and the base names of the files found are pairwise distinct, then
  \<open>process_directory\<close> returns their number \<open>N\<close>; each of them has a file of its base
  name in the output directory; these are \<open>N\<close> different paths; and the paths under the
  output directory after the run are those from before the run and these \<open>N\<close>. An output
  directory that had nothing in it before the run therefore holds exactly \<open>N\<close> entries.
\<close>

theorem distinct_names_give_one_output_each:
  assumes mk: "mkdir E (fs w) (Path E output_dir) = Inr fsy"
    and ok: "list_all succeeded (outcomes E self (Path E output_dir) audio_format solver nfe tau
               denoising use_enhanced (loop_start E w fsy input_dir output_dir audio_format)
               (rglob fsy (Path E input_dir) audio_format))"
    and dn: "distinct (map name (rglob fsy (Path E input_dir) audio_format))"
  shows "snd (process_directory E self w input_dir output_dir audio_format solver nfe tau denoising
                use_enhanced) = Inr (length (rglob fsy (Path E input_dir) audio_format))
     \<and> (\<forall>f\<in>set (rglob fsy (Path E input_dir) audio_format).
           is_file (fs (fst (process_directory E self w input_dir output_dir audio_format solver nfe
                               tau denoising use_enhanced))) (target (Path E output_dir) f)
           \<and> name (target (Path E output_dir) f) = name f)
     \<and> card (target (Path E output_dir) ` set (rglob fsy (Path E input_dir) audio_format))
         = length (rglob fsy (Path E input_dir) audio_format)
     \<and> set (under (fs (fst (process_directory E self w input_dir output_dir audio_format solver nfe
                               tau denoising use_enhanced))) (Path E output_dir))
         = set (under (fs w) (Path E output_dir))
           \<union> target (Path E output_dir) ` set (rglob fsy (Path E input_dir) audio_format)
     \<and> (wf_fs (fs w) \<and> under (fs w) (Path E output_dir) = [] \<longrightarrow>
          length (under (fs (fst (process_directory E self w input_dir output_dir audio_format solver
                                    nfe tau denoising use_enhanced))) (Path E output_dir))
            = length (rglob fsy (Path E input_dir) audio_format))"
proof -
  let ?files = "rglob fsy (Path E input_dir) audio_format"
  let ?out = "Path E output_dir"
  let ?run = "process_directory E self w input_dir output_dir audio_format solver nfe tau denoising
                use_enhanced"
  have c1: "snd ?run = Inr (length ?files)"
    using batch_all_succeeded(1)[OF mk ok] .
  have c2: "\<forall>f\<in>set ?files. is_file (fs (fst ?run)) (target ?out f) \<and> name (target ?out f) = name f"
    using batch_outputs_present[OF mk ok] name_target by blast
  have c3: "card (target ?out ` set ?files) = length ?files"
    using distinct_names_card[OF dn] .
  have c4: "set (under (fs (fst ?run)) ?out) = set (under (fs w) ?out) \<union> target ?out ` set ?files"
    using batch_under[OF mk ok] .
  have c5: "wf_fs (fs w) \<and> under (fs w) ?out = [] \<longrightarrow> length (under (fs (fst ?run)) ?out) = length ?files"
  proof
    assume a: "wf_fs (fs w) \<and> under (fs w) ?out = []"
    then have "wf_fs (fs (fst ?run))" using batch_all_succeeded(4)[OF mk ok] by blast
    then have "length (under (fs (fst ?run)) ?out) = card (set (under (fs (fst ?run)) ?out))"
      by (simp only: under_length_card set_under)
    also have "\<dots> = card (target ?out ` set ?files)" using a by (simp only: c4) simp
    finally show "length (under (fs (fst ?run)) ?out) = length ?files" using c3 by simp
  qed
  from c1 c2 c3 c4 c5 show ?thesis by blast
qed

theorem distinct_names_give_one_output_each_witness:
  "snd (process_directory demo_env demo_self good_world ''in'' ''out'' ''wav'' ''Midpoint''
          (IntNum 64) (7 / 10) True True) = Inr 2
   \<and> is_file (fs (fst (process_directory demo_env demo_self good_world ''in'' ''out'' ''wav''
                         ''Midpoint'' (IntNum 64) (7 / 10) True True))) [''out'', ''a.wav'']
   \<and> is_file (fs (fst (process_directory demo_env demo_self good_world ''in'' ''out'' ''wav''
                         ''Midpoint'' (IntNum 64) (7 / 10) True True))) [''out'', ''c.wav'']
   \<and> length (under (fs (fst (process_directory demo_env demo_self good_world ''in'' ''out'' ''wav''
                                ''Midpoint'' (IntNum 64) (7 / 10) True True))) (Path demo_env ''out''))
       = 2"
proof -
  let ?run = "process_directory demo_env demo_self good_world ''in'' ''out'' ''wav'' ''Midpoint''
                (IntNum 64) (7 / 10) True True"
  note th = distinct_names_give_one_output_each[OF good_mkdir good_ok good_names]
  have a: "snd ?run = Inr 2" using th by (simp add: good_files)
  have "\<forall>f\<in>set [[''in'', ''a.wav''], [''in'', ''sub'', ''c.wav'']].
          is_file (fs (fst ?run)) (target (Path demo_env ''out'') f)"
    using th unfolding good_files by blast
  then have b: "is_file (fs (fst ?run)) [''out'', ''a.wav'']"
    and c: "is_file (fs (fst ?run)) [''out'', ''c.wav'']"
    by (simp_all add: good_files target_def joinpath_def name_def demo_Path)
  have d: "length (under (fs (fst ?run)) (Path demo_env ''out'')) = 2"
    using th good_wf good_fresh by (simp add: good_files)
  from a b c d show ?thesis by blast
qed

text \<open>
  C2 as stated, without the condition on the base names, fails: two files found, both
  going through, the count is 2, and the output directory holds the single entry
  \<^verbatim>\<open>out/x.wav\<close>.
\<close>

theorem two_inputs_one_output_counterexample:
  "length (rglob twin_fs1 (Path demo_env ''in'') ''wav'') = 2
   \<and> list_all succeeded
        (outcomes demo_env demo_self (Path demo_env ''out'') ''wav'' ''Midpoint'' (IntNum 64) (7 / 10)
           True True (loop_start demo_env twin_world twin_fs1 ''in'' ''out'' ''wav'')
           (rglob twin_fs1 (Path demo_env ''in'') ''wav''))
   \<and> snd (process_directory demo_env demo_self twin_world ''in'' ''out'' ''wav'' ''Midpoint''
            (IntNum 64) (7 / 10) True True) = Inr 2
   \<and> under (fs (fst (process_directory demo_env demo_self twin_world ''in'' ''out'' ''wav''
                       ''Midpoint'' (IntNum 64) (7 / 10) True True))) (Path demo_env ''out'')
       = [[''out'', ''x.wav'']]"
  using twin_ok twin_result
  by (simp add: twin_final_fs twin_files) (simp add: under_def demo_defs path_defs)

text \<open>
  C7, as the code has it. After a run in which every file found goes through, with
  pairwise distinct base names, into an output directory that had nothing under it,
  \<open>verify_output\<close> on the output directory with the same format returns the number of
  files found, which is also what \<open>process_directory\<close> returned.
\<close>

theorem verifier_counts_batch_with_distinct_names:
  assumes mk: "mkdir E (fs w) (Path E output_dir) = Inr fsy"
    and ok: "list_all succeeded (outcomes E self (Path E output_dir) audio_format solver nfe tau
               denoising use_enhanced (loop_start E w fsy input_dir output_dir audio_format)
               (rglob fsy (Path E input_dir) audio_format))"
    and wf: "wf_fs (fs w)"
    and fresh: "under (fs w) (Path E output_dir) = []"
    and dn: "distinct (map name (rglob fsy (Path E input_dir) audio_format))"
  shows "snd (process_directory E self w input_dir output_dir audio_format solver nfe tau denoising
                use_enhanced) = Inr (length (rglob fsy (Path E input_dir) audio_format))
     \<and> snd (verify_output E self
               (fst (process_directory E self w input_dir output_dir audio_format solver nfe tau
                       denoising use_enhanced)) output_dir audio_format)
         = length (rglob fsy (Path E input_dir) audio_format)"
proof -
  let ?files = "rglob fsy (Path E input_dir) audio_format"
  let ?out = "Path E output_dir"
  let ?run = "process_directory E self w input_dir output_dir audio_format solver nfe tau denoising
                use_enhanced"
  let ?P = "\<lambda>p. is_under ?out p \<and> fnmatch (name p) (''*.'' @ audio_format)"
  have c1: "snd ?run = Inr (length ?files)"
    using batch_all_succeeded(1)[OF mk ok] .
  have dir: "is_dir (fs (fst ?run)) ?out"
    using batch_all_succeeded(5)[OF mk ok] .
  have wf': "distinct (map fst (fs (fst ?run)))"
    using batch_all_succeeded(4)[OF mk ok] wf by (simp add: wf_fs_def)
  have u: "set (under (fs (fst ?run)) ?out) = target ?out ` set ?files"
    using fresh by (simp only: batch_under[OF mk ok]) simp
  have "{p. ?P p} \<inter> set (map fst (fs (fst ?run))) = target ?out ` set ?files"
  proof
    show "{p. ?P p} \<inter> set (map fst (fs (fst ?run))) \<subseteq> target ?out ` set ?files"
      using u by (auto simp: set_under)
    show "target ?out ` set ?files \<subseteq> {p. ?P p} \<inter> set (map fst (fs (fst ?run)))"
    proof
      fix p assume "p \<in> target ?out ` set ?files"
      then obtain f where f: "f \<in> set ?files" "p = target ?out f" by blast
      have "fnmatch (name p) (''*.'' @ audio_format)"
        using rglob_fnmatch[OF f(1)] f(2) by (simp only: name_target)
      moreover have "is_under ?out p" using f(2) target_under by simp
      moreover have "p \<in> set (map fst (fs (fst ?run)))"
        using batch_all_succeeded(2)[OF mk ok] f by blast
      ultimately show "p \<in> {p. ?P p} \<inter> set (map fst (fs (fst ?run)))" by blast
    qed
  qed
  then have "length (filter ?P (map fst (fs (fst ?run)))) = card (target ?out ` set ?files)"
    using distinct_length_filter[OF wf', of ?P] by simp
  then have "length (rglob (fs (fst ?run)) ?out audio_format) = length ?files"
    using dir distinct_names_card[OF dn] by (simp add: rglob_def)
  moreover have "exists (fs (fst ?run)) ?out"
    using dir by (simp add: exists_def is_dir_def)
  ultimately have "snd (verify_output E self (fst ?run) output_dir audio_format) = length ?files"
    by (simp add: verify_output_def Let_def)
  with c1 show ?thesis by blast
qed

theorem verifier_counts_batch_with_distinct_names_witness:
  "snd (process_directory demo_env demo_self good_world ''in'' ''out'' ''wav'' ''Midpoint''
          (IntNum 64) (7 / 10) True True) = Inr 2
   \<and> snd (verify_output demo_env demo_self
            (fst (process_directory demo_env demo_self good_world ''in'' ''out'' ''wav'' ''Midpoint''
                    (IntNum 64) (7 / 10) True True)) ''out'' ''wav'') = 2"
  using verifier_counts_batch_with_distinct_names[OF good_mkdir good_ok good_wf good_fresh good_names]
  by (simp add: good_files)

text \<open>
  C7 as stated, without the condition on the base names, fails: the output directory is
  fresh, both files found go through, \<open>process_directory\<close> returns 2, and
  \<open>verify_output\<close> on the output directory returns 1.
\<close>

theorem verifier_undercounts_twins_counterexample:
  "under (fs twin_world) (Path demo_env ''out'') = []
   \<and> list_all succeeded
        (outcomes demo_env demo_self (Path demo_env ''out'') ''wav'' ''Midpoint'' (IntNum 64) (7 / 10)
           True True (loop_start demo_env twin_world twin_fs1 ''in'' ''out'' ''wav'')
           (rglob twin_fs1 (Path demo_env ''in'') ''wav''))
   \<and> snd (process_directory demo_env demo_self twin_world ''in'' ''out'' ''wav'' ''Midpoint''
            (IntNum 64) (7 / 10) True True) = Inr 2
   \<and> snd (verify_output demo_env demo_self
            (fst (process_directory demo_env demo_self twin_world ''in'' ''out'' ''wav'' ''Midpoint''
                    (IntNum 64) (7 / 10) True True)) ''out'' ''wav'') = 1"
  using twin_ok twin_result twin_fresh
  by (simp add: verify_output_def Let_def twin_final_fs) (simp add: demo_defs path_defs)

text \<open>
  C10. When every file found goes through and two of them share a base name, every file
  still counts, the calls of \<^verbatim>\<open>sf.write\<close> go to the flattened paths in the order of
  the files, two of them to the same path, and writing a path a second time leaves what
  the second write alone would have left. Into an output directory that had nothing under
  it, the run leaves as many entries as there are different base names, strictly fewer
  than the count returned.
\<close>

theorem colliding_names_count_exceeds_outputs:
  assumes mk: "mkdir E (fs w) (Path E output_dir) = Inr fsy"
    and ok: "list_all succeeded (outcomes E self (Path E output_dir) audio_format solver nfe tau
               denoising use_enhanced (loop_start E w fsy input_dir output_dir audio_format)
               (rglob fsy (Path E input_dir) audio_format))"
    and wf: "wf_fs (fs w)"
    and fresh: "under (fs w) (Path E output_dir) = []"
    and coll: "\<not> distinct (map name (rglob fsy (Path E input_dir) audio_format))"
  shows "snd (process_directory E self w input_dir output_dir audio_format solver nfe tau denoising
                use_enhanced) = Inr (length (rglob fsy (Path E input_dir) audio_format))
     \<and> written_paths (trace (fst (process_directory E self w input_dir output_dir audio_format
                                     solver nfe tau denoising use_enhanced)))
         = written_paths (trace w)
           @ map (target (Path E output_dir)) (rglob fsy (Path E input_dir) audio_format)
     \<and> \<not> distinct (map (target (Path E output_dir)) (rglob fsy (Path E input_dir) audio_format))
     \<and> (\<forall>p d sr f d' sr' f' fs0 fs1 fs2.
           sf_write E fs0 p d sr f = (None, fs1) \<and> sf_write E fs1 p d' sr' f' = (None, fs2) \<longrightarrow>
             sf_write E fs0 p d' sr' f' = (None, fs2))
     \<and> length (under (fs (fst (process_directory E self w input_dir output_dir audio_format solver
                                  nfe tau denoising use_enhanced))) (Path E output_dir))
         = card (set (map name (rglob fsy (Path E input_dir) audio_format)))
     \<and> length (under (fs (fst (process_directory E self w input_dir output_dir audio_format solver
                                  nfe tau denoising use_enhanced))) (Path E output_dir))
         < length (rglob fsy (Path E input_dir) audio_format)"
proof -
  let ?files = "rglob fsy (Path E input_dir) audio_format"
  let ?out = "Path E output_dir"
  let ?run = "process_directory E self w input_dir output_dir audio_format solver nfe tau denoising
                use_enhanced"
  have c1: "snd ?run = Inr (length ?files)"
    using batch_all_succeeded(1)[OF mk ok] .
  have c2: "written_paths (trace (fst ?run)) = written_paths (trace w) @ map (target ?out) ?files"
    using batch_all_succeeded(3)[OF mk ok] .
  have eq: "map (target ?out) ?files = map (joinpath ?out) (map name ?files)"
    by (simp add: target_def comp_def)
  have c3: "\<not> distinct (map (target ?out) ?files)"
  proof
    assume "distinct (map (target ?out) ?files)"
    then have "distinct (map (joinpath ?out) (map name ?files))" by (simp only: eq)
    then have "distinct (map name ?files)" by (simp only: distinct_map)
    with coll show False by blast
  qed
  have c4: "\<forall>p d sr f d' sr' f' fs0 fs1 fs2.
           sf_write E fs0 p d sr f = (None, fs1) \<and> sf_write E fs1 p d' sr' f' = (None, fs2) \<longrightarrow>
             sf_write E fs0 p d' sr' f' = (None, fs2)"
    using sf_write_twice by blast
  have "wf_fs (fs (fst ?run))" using batch_all_succeeded(4)[OF mk ok] wf by blast
  then have "length (under (fs (fst ?run)) ?out) = card (set (under (fs (fst ?run)) ?out))"
    by (simp only: under_length_card set_under)
  also have "\<dots> = card (target ?out ` set ?files)"
    using fresh by (simp only: batch_under[OF mk ok]) simp
  also have "\<dots> = card (set (map name ?files))" by (rule card_targets)
  finally have c5: "length (under (fs (fst ?run)) ?out) = card (set (map name ?files))" .
  have c6: "length (under (fs (fst ?run)) ?out) < length ?files"
    using c5 collision_card[OF coll] by simp
  from c1 c2 c3 c4 c5 c6 show ?thesis by blast
qed

theorem colliding_names_count_exceeds_outputs_witness:
  "snd (process_directory demo_env demo_self twin_world ''in'' ''out'' ''wav'' ''Midpoint''
          (IntNum 64) (7 / 10) True True) = Inr 2
   \<and> written_paths (trace (fst (process_directory demo_env demo_self twin_world ''in'' ''out'' ''wav''
                                  ''Midpoint'' (IntNum 64) (7 / 10) True True)))
       = [[''out'', ''x.wav''], [''out'', ''x.wav'']]
   \<and> length (under (fs (fst (process_directory demo_env demo_self twin_world ''in'' ''out'' ''wav''
                                ''Midpoint'' (IntNum 64) (7 / 10) True True))) (Path demo_env ''out''))
       = 1
   \<and> lookup (fs (fst (process_directory demo_env demo_self twin_world ''in'' ''out'' ''wav''
                         ''Midpoint'' (IntNum 64) (7 / 10) True True))) [''out'', ''x.wav'']
       = Some (File ''silence'')"
proof -
  let ?run = "process_directory demo_env demo_self twin_world ''in'' ''out'' ''wav'' ''Midpoint''
                (IntNum 64) (7 / 10) True True"
  note th = colliding_names_count_exceeds_outputs[OF twin_mkdir twin_ok twin_wf twin_fresh twin_names]
  have tr: "trace twin_world = []" by (simp add: twin_world_def)
  have a: "snd ?run = Inr 2" using th by (simp add: twin_files)
  have "written_paths (trace (fst ?run))
          = written_paths (trace twin_world)
            @ map (target (Path demo_env ''out'')) [[''in'', ''a'', ''x.wav''], [''in'', ''b'', ''x.wav'']]"
    using th unfolding twin_files by blast
  then have b: "written_paths (trace (fst ?run)) = [[''out'', ''x.wav''], [''out'', ''x.wav'']]"
    using tr by (simp add: target_def joinpath_def name_def demo_Path)
  have c: "length (under (fs (fst ?run)) (Path demo_env ''out'')) = 1"
    using th by (simp add: twin_files name_def)
  have d: "lookup (fs (fst ?run)) [''out'', ''x.wav''] = Some (File ''silence'')"
    by (simp add: twin_final_fs) (simp add: demo_defs lookup_def)
  from a b c d show ?thesis by blast
qed

end
